theory Spec2Isabelle
  imports Complex_Main "HOL-Library.Sublist"
begin

section \<open>FinWise statement analysis: the categorization pipeline\<close>

text \<open>
  A shallow embedding of the decision logic of the FinWise statement analyser:
  the keyword classifier and the batched remote classifier of the categorize API route,
  the column mapper with its date normaliser, and the category statistics of the
  transaction table.

  JavaScript strings are modelled as HOL strings, whose characters are the code units
  up to 255. Letters (for lower-casing) and digits (for parsing) are the ASCII ones;
  every other character is carried through unchanged.
\<close>

subsection \<open>Strings\<close>

text \<open>\<^verbatim>\<open>String.prototype.toLowerCase\<close>, on the ASCII letters.\<close>

definition toLowerChar :: "char \<Rightarrow> char" where
  "toLowerChar c =
     (let n = of_char c :: nat in if 65 \<le> n \<and> n \<le> 90 then char_of (n + 32) else c)"

definition toLowerCase :: "string \<Rightarrow> string" where
  "toLowerCase s = map toLowerChar s"

fun startsWith :: "string \<Rightarrow> string \<Rightarrow> bool" where
  "startsWith s [] = True"
| "startsWith [] (k # ks) = False"
| "startsWith (c # s) (k # ks) = (c = k \<and> startsWith s ks)"

text \<open>\<^verbatim>\<open>s.includes(k)\<close>: \<open>k\<close> occurs in \<open>s\<close> as a contiguous substring.\<close>

fun str_includes :: "string \<Rightarrow> string \<Rightarrow> bool" where
  "str_includes [] k = (k = [])"
| "str_includes (c # s) k = (startsWith (c # s) k \<or> str_includes s k)"

subsection \<open>Transactions\<close>

text \<open>
  The transaction object \<^verbatim>\<open>{ id, date, description, amount, category }\<close>. The three
  components that handle it give its description and amount different shapes (the
  mapper may find a cell absent, the API route takes any JSON number, the table takes a
  number), so both are type parameters.
\<close>

record ('d, 'n) transaction =
  id_tx :: string
  date :: string
  description :: 'd
  amount :: 'n
  category :: string

subsection \<open>Keyword classifier (\<^verbatim>\<open>categorizeWithKeywords\<close>)\<close>

text \<open>
  The \<^verbatim>\<open>categories\<close> object literal. \<^verbatim>\<open>Object.entries\<close> lists its keys in
  the order they are written, since none of them is an integer index.
\<close>

definition categories :: "(string \<times> string list) list" where
  "categories =
    [(''Shopping'',
        [''amazon'', ''walmart'', ''target'', ''ebay'', ''etsy'', ''bestbuy'', ''purchase'', ''shop'']),
     (''Food & Dining'',
        [''restaurant'', ''cafe'', ''coffee'', ''starbucks'', ''mcdonald'', ''burger'', ''pizza'',
         ''food'', ''dining'', ''chipotle'', ''subway'', ''taco'', ''wendy'']),
     (''Groceries'',
        [''grocery'', ''supermarket'', ''market'', ''trader'', ''whole foods'', ''safeway'',
         ''kroger'', ''aldi'', ''publix'', ''food'']),
     (''Transportation'',
        [''uber'', ''lyft'', ''taxi'', ''cab'', ''transit'', ''metro'', ''subway'', ''bus'', ''train'',
         ''transport'']),
     (''Travel'',
        [''hotel'', ''airbnb'', ''airline'', ''flight'', ''booking'', ''expedia'', ''travel'',
         ''vacation'', ''trip'']),
     (''Entertainment'',
        [''netflix'', ''hulu'', ''spotify'', ''disney'', ''movie'', ''theater'', ''concert'',
         ''ticket'', ''entertainment'']),
     (''Health & Fitness'',
        [''gym'', ''fitness'', ''workout'', ''exercise'', ''health'', ''medical'', ''doctor'',
         ''pharmacy'', ''drug'', ''cvs'', ''walgreens'']),
     (''Bills & Utilities'',
        [''bill'', ''utility'', ''electric'', ''water'', ''gas'', ''internet'', ''phone'', ''cable'',
         ''service'']),
     (''Education'',
        [''tuition'', ''school'', ''college'', ''university'', ''course'', ''class'', ''education'',
         ''book'', ''textbook'']),
     (''Personal Care'',
        [''salon'', ''spa'', ''haircut'', ''beauty'', ''cosmetic'', ''personal care'']),
     (''Home'',
        [''furniture'', ''home depot'', ''lowes'', ''ikea'', ''home'', ''house'', ''apartment'',
         ''rent'', ''mortgage'']),
     (''Insurance'', [''insurance'', ''premium'', ''coverage'', ''policy'']),
     (''Investments'',
        [''investment'', ''stock'', ''bond'', ''mutual fund'', ''etf'', ''brokerage'', ''dividend'',
         ''capital'']),
     (''Income'',
        [''salary'', ''paycheck'', ''deposit'', ''income'', ''revenue'', ''wage'', ''earnings'',
         ''commission'']),
     (''Transfers'',
        [''transfer'', ''zelle'', ''venmo'', ''paypal'', ''cash app'', ''wire'', ''ach'',
         ''direct deposit'']),
     (''Subscriptions'',
        [''subscription'', ''membership'', ''recurring'', ''monthly'', ''annual''])]"

text \<open>The inner loop over one category's keywords: does any of them occur?\<close>

fun matchKeywords :: "string \<Rightarrow> string list \<Rightarrow> bool" where
  "matchKeywords desc [] = False"
| "matchKeywords desc (keyword # keywords) =
     (if str_includes desc keyword then True else matchKeywords desc keywords)"

text \<open>The outer loop over the table, returning at the first hit.\<close>

fun matchCategories :: "string \<Rightarrow> (string \<times> string list) list \<Rightarrow> string" where
  "matchCategories desc [] = ''Uncategorized''"
| "matchCategories desc ((cat, keywords) # rest) =
     (if matchKeywords desc keywords then cat else matchCategories desc rest)"

definition categorizeWithKeywords :: "string \<Rightarrow> string" where
  "categorizeWithKeywords descr = matchCategories (toLowerCase descr) categories"

subsection \<open>The prompt of the remote classifier\<close>

definition newline :: char where
  "newline = CHR 0x0A"

text \<open>
  The template literal of \<^verbatim>\<open>processBatchWithLLM\<close> up to the interpolated transaction
  text, line by line (the literal opens with a line break, so its first line is empty).
\<close>

definition promptLines :: "string list" where
  "promptLines =
    ['''',
     ''You are a financial transaction categorizer. Please categorize each transaction into one of the following categories:'',
     ''- Shopping'',
     ''- Food & Dining'',
     ''- Groceries'',
     ''- Transportation'',
     ''- Travel'',
     ''- Entertainment'',
     ''- Health & Fitness'',
     ''- Bills & Utilities'',
     ''- Education'',
     ''- Personal Care'',
     ''- Home'',
     ''- Insurance'',
     ''- Investments'',
     ''- Income'',
     ''- Transfers'',
     ''- Subscriptions'',
     ''- Miscellaneous'',
     '''',
     ''For each transaction, respond with ONLY the category name, one per line, in the same order as the transactions.'',
     '''',
     ''Here are the transactions:'']"

definition buildPrompt :: "string \<Rightarrow> string" where
  "buildPrompt transactionsText =
     concat (map (\<lambda>l. l @ [newline]) promptLines) @ transactionsText @ [newline]"

text \<open>The vocabulary the prompt enumerates: its bullet lines, without the bullet.\<close>

definition promptVocabulary :: "string list" where
  "promptVocabulary = map (drop 2) (filter (\<lambda>l. take 2 l = ''- '') promptLines)"

subsection \<open>Remote classifier (\<^verbatim>\<open>categorizeWithLLM\<close>, \<^verbatim>\<open>processBatchWithLLM\<close>)\<close>

text \<open>
  The white space that \<^verbatim>\<open>String.prototype.trim\<close> and \<^verbatim>\<open>parseInt\<close> skip, among
  the characters up to 255: tab, line feed, vertical tab, form feed, carriage return,
  space and the no-break space.
\<close>

definition isWhitespace :: "char \<Rightarrow> bool" where
  "isWhitespace c = ((of_char c :: nat) \<in> {9, 10, 11, 12, 13, 32, 160})"

definition trim :: "string \<Rightarrow> string" where
  "trim s = rev (dropWhile isWhitespace (rev (dropWhile isWhitespace s)))"

text \<open>
  \<^verbatim>\<open>s.split(sep)\<close> for a separator that matches one character: the pieces between
  the separators, empty pieces included; an input without separator is one piece.
\<close>

fun split_on :: "(char \<Rightarrow> bool) \<Rightarrow> string \<Rightarrow> string list" where
  "split_on sep [] = [[]]"
| "split_on sep (c # s) =
     (if sep c then [] # split_on sep s
      else (case split_on sep s of [] \<Rightarrow> [[c]] | w # ws \<Rightarrow> (c # w) # ws))"

text \<open>\<^verbatim>\<open>xs.join(sep)\<close>.\<close>

fun join :: "string \<Rightarrow> string list \<Rightarrow> string" where
  "join sep [] = []"
| "join sep [x] = x"
| "join sep (x # y # ys) = x @ sep @ join sep (y # ys)"

text \<open>
  What one \<^verbatim>\<open>fetch\<close> of the chat endpoint can do, as far as the batch processor
  looks: the call rejects; or it resolves to a response with its \<^verbatim>\<open>ok\<close> flag and
  status, whose body either fails to parse as JSON, or parses to a value without a string
  at \<^verbatim>\<open>choices[0].message.content\<close> (reading it, or calling \<^verbatim>\<open>split\<close> on it,
  raises a TypeError), or carries that string.
\<close>

datatype json_outcome = JsonThrows | NoContent | Content string

datatype fetch_outcome = FetchThrows | Response bool nat json_outcome

text \<open>
  The lines of the assistant message that are not blank, trimmed:
  \<^verbatim>\<open>split("\n").filter((line) => line.trim() !== "").map((line) => line.trim())\<close>.
\<close>

definition responseCategories :: "string \<Rightarrow> string list" where
  "responseCategories assistantMessage =
     map trim (filter (\<lambda>line. trim line \<noteq> []) (split_on (\<lambda>c. c = newline) assistantMessage))"

text \<open>
  The text of a batch in the prompt. \<open>toFixed2\<close> stands for
  \<^verbatim>\<open>Math.abs(t.amount).toFixed(2)\<close>, the host's rendering of a number, which is not
  modelled: it is a parameter.
\<close>

definition transactionsText ::
  "('n \<Rightarrow> string) \<Rightarrow> (string, 'n, 'z) transaction_scheme list \<Rightarrow> string" where
  "transactionsText toFixed2 batch =
     join [newline]
       (map (\<lambda>t. ''Transaction: '' @ description t @ '', Amount: '' @ toFixed2 (amount t)) batch)"

text \<open>The fallback of both the mismatch branch and the catch block.\<close>

definition keywordFallback ::
  "(string, 'n, 'z) transaction_scheme list \<Rightarrow> (string, 'n, 'z) transaction_scheme list" where
  "keywordFallback batch =
     map (\<lambda>t. t\<lparr>category := categorizeWithKeywords (description t)\<rparr>) batch"

text \<open>\<^verbatim>\<open>categories[index] || "Miscellaneous"\<close>: an absent or empty entry is falsy.\<close>

definition categoryAt :: "string list \<Rightarrow> nat \<Rightarrow> string" where
  "categoryAt cats index =
     (if index < length cats \<and> cats ! index \<noteq> [] then cats ! index else ''Miscellaneous'')"

text \<open>
  One batch. Every \<^verbatim>\<open>throw\<close> of the \<^verbatim>\<open>try\<close> block (a rejected fetch, the status
  check, a body that is not JSON, a missing content) continues in the \<^verbatim>\<open>catch\<close>
  block, which is the keyword fallback. Outside the \<^verbatim>\<open>try\<close> block only the
  prompt is built, which cannot raise on transactions with a string description.
\<close>

definition processBatchWithLLM ::
  "(string \<Rightarrow> fetch_outcome) \<Rightarrow> ('n \<Rightarrow> string) \<Rightarrow> (string, 'n, 'z) transaction_scheme list
     \<Rightarrow> (string, 'n, 'z) transaction_scheme list" where
  "processBatchWithLLM fetch toFixed2 batch =
     (let prompt = buildPrompt (transactionsText toFixed2 batch) in
      case fetch prompt of
        FetchThrows \<Rightarrow> keywordFallback batch
      | Response ok status body \<Rightarrow>
          if \<not> ok then keywordFallback batch
          else (case body of
              JsonThrows \<Rightarrow> keywordFallback batch
            | NoContent \<Rightarrow> keywordFallback batch
            | Content assistantMessage \<Rightarrow>
                (let cats = responseCategories assistantMessage in
                 if length cats \<noteq> length batch then keywordFallback batch
                 else map (\<lambda>(t, index). t\<lparr>category := categoryAt cats index\<rparr>)
                        (zip batch [0..<length batch]))))"

definition batchSize :: nat where
  "batchSize = 10"

text \<open>The chunking loop: \<^verbatim>\<open>for (let i = 0; i < n; i += batchSize) push(slice(i, i + batchSize))\<close>.\<close>

function mkBatches :: "nat \<Rightarrow> 'a list \<Rightarrow> 'a list list" where
  "mkBatches i xs =
     (if i < length xs then take batchSize (drop i xs) # mkBatches (i + batchSize) xs else [])"
  by pat_completeness auto
termination
  by (relation "measure (\<lambda>(i, xs). length xs - i)") (auto simp: batchSize_def)

declare mkBatches.simps [simp del]

text \<open>
  All batches are processed and the results flattened in batch order
  (\<^verbatim>\<open>Promise.all\<close> keeps the order of its argument). The batches share no state, so
  the order in which their requests complete plays no role; what the endpoint answers
  to the request of batch \<open>k\<close> is \<open>fetch k\<close>, an arbitrary function of the prompt.
\<close>

definition categorizeWithLLM ::
  "(nat \<Rightarrow> string \<Rightarrow> fetch_outcome) \<Rightarrow> ('n \<Rightarrow> string) \<Rightarrow> (string, 'n, 'z) transaction_scheme list
     \<Rightarrow> (string, 'n, 'z) transaction_scheme list" where
  "categorizeWithLLM fetch toFixed2 transactions =
     (let batches = mkBatches 0 transactions in
      concat (map (\<lambda>(k, batch). processBatchWithLLM (fetch k) toFixed2 batch)
                (zip [0..<length batches] batches)))"

text \<open>The remote classification of a batch of \<open>n\<close> transactions failed.\<close>

definition remoteFailed :: "fetch_outcome \<Rightarrow> nat \<Rightarrow> bool" where
  "remoteFailed r n =
     (case r of
        FetchThrows \<Rightarrow> True
      | Response ok status body \<Rightarrow>
          \<not> ok \<or> (case body of Content msg \<Rightarrow> length (responseCategories msg) \<noteq> n | _ \<Rightarrow> True))"

text \<open>A transaction of the output is the input transaction with a non-empty category.\<close>

definition categorized ::
  "(string, 'n, 'z) transaction_scheme \<Rightarrow> (string, 'n, 'z) transaction_scheme \<Rightarrow> bool" where
  "categorized out t = (out = t\<lparr>category := category out\<rparr> \<and> category out \<noteq> [])"

subsection \<open>Example data\<close>

text \<open>
  The three transactions of the end-to-end scenario, and a list of eleven transactions
  (two batches) made of them. The rendering of amounts plays no role in what follows.
\<close>

definition exampleTransactions :: "(string, rat) transaction list" where
  "exampleTransactions =
    [\<lparr>id_tx = ''tx-0'', date = ''2024-03-15'', description = ''STARBUCKS #123'', amount = - 9 / 2,
      category = ''''\<rparr>,
     \<lparr>id_tx = ''tx-1'', date = ''2024-03-16'', description = ''Uber Trip'', amount = - 12,
      category = ''''\<rparr>,
     \<lparr>id_tx = ''tx-2'', date = ''2024-03-17'', description = ''Paycheck Deposit'', amount = 2500,
      category = ''''\<rparr>]"

definition elevenTransactions :: "(string, rat) transaction list" where
  "elevenTransactions =
     exampleTransactions @ exampleTransactions @ exampleTransactions
       @ [exampleTransactions ! 0, exampleTransactions ! 1]"

definition exampleMessage :: string where
  "exampleMessage =
     ''  Food & Dining'' @ [newline] @ [newline] @ ''Transportation  '' @ [newline]
       @ ''   '' @ [newline] @ ''Income'' @ [newline]"

text \<open>An endpoint that answers the first batch with ten lines and rejects every other.\<close>

definition exampleFetch :: "nat \<Rightarrow> string \<Rightarrow> fetch_outcome" where
  "exampleFetch k prompt =
     (if k = 0 then Response True 200 (Content (concat (replicate 10 (''Shopping'' @ [newline]))))
      else FetchThrows)"

subsection \<open>Numbers and the host\<close>

text \<open>
  A JavaScript number: a finite value, an infinity or NaN. Finite values are exact
  rationals; the rounding of IEEE doubles is not modelled, and the two zeros are one.
\<close>

datatype jsnum = Num rat | PosInfinity | NegInfinity | NaN

datatype error = RangeError

text \<open>
  What the column mapper takes from its host and this model does not define:
  \<^item> \<open>localTZA\<close>: the offset of local time from UTC in milliseconds, for a local time
    value (positive east of Greenwich);
  \<^item> \<open>dateParse\<close>: the time value that \<^verbatim>\<open>new Date(string)\<close> reads from free-form
    text, \<open>None\<close> for an invalid date (the formats it accepts vary between engines);
  \<^item> \<open>parseFloat\<close>: \<^verbatim>\<open>Number.parseFloat\<close>.
\<close>

record host =
  localTZA :: "int \<Rightarrow> int"
  dateParse :: "string \<Rightarrow> int option"
  parseFloat :: "string \<Rightarrow> jsnum"

subsection \<open>Decimal digits\<close>

definition isDigit :: "char \<Rightarrow> bool" where
  "isDigit c = (48 \<le> (of_char c :: nat) \<and> (of_char c :: nat) \<le> 57)"

definition digitChar :: "nat \<Rightarrow> char" where
  "digitChar d = char_of (48 + d)"

text \<open>The decimal representation of a natural number, as \<^verbatim>\<open>String(index)\<close> writes it.\<close>

function showNat :: "nat \<Rightarrow> string" where
  "showNat n = (if n < 10 then [digitChar n] else showNat (n div 10) @ [digitChar (n mod 10)])"
  by pat_completeness auto
termination
  by (relation "measure id") auto

declare showNat.simps [simp del]

text \<open>The number that a string of decimal digits denotes.\<close>

definition digitsValue :: "string \<Rightarrow> int" where
  "digitsValue ds = foldl (\<lambda>a c. a * 10 + (of_char c - 48)) 0 ds"

text \<open>\<^verbatim>\<open>padStart(width, "0")\<close> of the decimal representation.\<close>

definition padNat :: "nat \<Rightarrow> nat \<Rightarrow> string" where
  "padNat width n = replicate (width - length (showNat n)) (CHR ''0'') @ showNat n"

subsection \<open>\<^verbatim>\<open>parseInt\<close>\<close>

text \<open>The value of a digit in a radix up to 16, if it is one.\<close>

definition digitValue :: "nat \<Rightarrow> char \<Rightarrow> nat option" where
  "digitValue radix c =
     (let n = of_char c :: nat;
          v = (if 48 \<le> n \<and> n \<le> 57 then Some (n - 48)
               else if 97 \<le> n \<and> n \<le> 102 then Some (n - 87)
               else if 65 \<le> n \<and> n \<le> 70 then Some (n - 55)
               else None)
      in case v of None \<Rightarrow> None | Some d \<Rightarrow> if d < radix then Some d else None)"

text \<open>The value of the longest prefix of digits; \<open>None\<close> when there is no digit.\<close>

fun readDigits :: "nat \<Rightarrow> nat option \<Rightarrow> string \<Rightarrow> nat option" where
  "readDigits radix acc [] = acc"
| "readDigits radix acc (c # s) =
     (case digitValue radix c of
        None \<Rightarrow> acc
      | Some d \<Rightarrow> readDigits radix (Some ((case acc of None \<Rightarrow> 0 | Some a \<Rightarrow> a) * radix + d)) s)"

text \<open>
  \<^verbatim>\<open>Number.parseInt(s)\<close> without a radix: leading white space, a sign, a
  \<^verbatim>\<open>0x\<close> prefix that selects radix 16, then the longest run of digits; \<open>None\<close> is NaN.
  The value is exact (a double rounds integers beyond \<open>2^53\<close>).
\<close>

definition parseInt :: "string \<Rightarrow> int option" where
  "parseInt s =
     (let s1 = dropWhile isWhitespace s;
          (sign, s2) = (case s1 of
                          c # r \<Rightarrow> if c = CHR ''-'' then (- 1, r)
                                   else if c = CHR ''+'' then (1, r) else (1 :: int, s1)
                        | [] \<Rightarrow> (1, s1));
          (radix, s3) = (if take 2 s2 = ''0x'' \<or> take 2 s2 = ''0X'' then (16, drop 2 s2)
                         else (10, s2))
      in map_option (\<lambda>n. sign * int n) (readDigits radix None s3))"

subsection \<open>Dates\<close>

text \<open>
  Day numbers of the proleptic Gregorian calendar, day 0 being 1 January 1970, as the
  \<^verbatim>\<open>Date\<close> object counts them.
\<close>

definition dayFromYear :: "int \<Rightarrow> int" where
  "dayFromYear y = 365 * (y - 1970) + (y - 1969) div 4 - (y - 1901) div 100 + (y - 1601) div 400"

definition isLeapYear :: "int \<Rightarrow> bool" where
  "isLeapYear y = (y mod 4 = 0 \<and> (y mod 100 \<noteq> 0 \<or> y mod 400 = 0))"

text \<open>The number of days of a year before its month \<open>m\<close> (0 is January).\<close>

definition daysBeforeMonth :: "int \<Rightarrow> nat \<Rightarrow> int" where
  "daysBeforeMonth y m =
     [0, 31, 59, 90, 120, 151, 181, 212, 243, 273, 304, 334] ! m
       + (if isLeapYear y \<and> 2 \<le> m then 1 else 0)"

text \<open>
  \<^verbatim>\<open>MakeDay(year, month, date)\<close>: months beyond 0..11 carry into the year, and days
  beyond the month carry on, so every triple of integers names a day.
\<close>

definition makeDay :: "int \<Rightarrow> int \<Rightarrow> int \<Rightarrow> int" where
  "makeDay year month dt =
     (let ym = year + month div 12; mn = nat (month mod 12)
      in dayFromYear ym + daysBeforeMonth ym mn + dt - 1)"

text \<open>The year, month (1 is January) and day of the month of a day number.\<close>

definition civilFromDays :: "int \<Rightarrow> int \<times> nat \<times> nat" where
  "civilFromDays z =
     (let z1 = z + 719468;
          era = z1 div 146097;
          doe = z1 mod 146097;
          yoe = (doe - doe div 1460 + doe div 36524 - doe div 146096) div 365;
          doy = doe - (365 * yoe + yoe div 4 - yoe div 100);
          mp = (5 * doy + 2) div 153;
          d = doy - (153 * mp + 2) div 5 + 1;
          m = (if mp < 10 then mp + 3 else mp - 9);
          y = yoe + era * 400 + (if m \<le> 2 then 1 else 0)
      in (y, nat m, nat d))"

definition msPerDay :: int where
  "msPerDay = 86400000"

text \<open>
  \<^verbatim>\<open>new Date(year, month, day)\<close> on numbers that may be NaN: the time value of local
  midnight of that day, or \<open>None\<close> for an invalid date. A year from 0 to 99 means
  1900 + year; a time value beyond \<open>8.64e15\<close> milliseconds is invalid.
\<close>

definition newDate :: "host \<Rightarrow> int option \<Rightarrow> int option \<Rightarrow> int option \<Rightarrow> int option" where
  "newDate h year month dy =
     (case (year, month, dy) of
        (Some y, Some m, Some d) \<Rightarrow>
          (let yr = (if 0 \<le> y \<and> y \<le> 99 then 1900 + y else y);
               t = makeDay yr m d * msPerDay;
               tv = t - localTZA h t
           in if \<bar>tv\<bar> \<le> 8640000000000000 then Some tv else None)
      | _ \<Rightarrow> None)"

text \<open>
  \<^verbatim>\<open>toISOString()\<close>: the UTC date and time of a time value; on an invalid date it
  throws a RangeError. Years outside 0..9999 are written with a sign and six digits.
\<close>

definition toISOString :: "int option \<Rightarrow> error + string" where
  "toISOString tv =
     (case tv of
        None \<Rightarrow> Inl RangeError
      | Some t \<Rightarrow>
          (let (y, m, d) = civilFromDays (t div msPerDay);
               ms = t mod msPerDay;
               year = (if 0 \<le> y \<and> y \<le> 9999 then padNat 4 (nat y)
                       else (if y < 0 then ''-'' else ''+'') @ padNat 6 (nat \<bar>y\<bar>))
           in Inr (year @ ''-'' @ padNat 2 m @ ''-'' @ padNat 2 d @ ''T''
                   @ padNat 2 (nat (ms div 3600000)) @ '':''
                   @ padNat 2 (nat (ms div 60000 mod 60)) @ '':''
                   @ padNat 2 (nat (ms div 1000 mod 60)) @ ''.''
                   @ padNat 3 (nat (ms mod 1000)) @ ''Z'')))"

subsection \<open>Date normaliser (\<^verbatim>\<open>formatDate\<close>)\<close>

text \<open>\<^verbatim>\<open>/^\d{4}-\d{2}-\d{2}/.test(dateStr)\<close>.\<close>

definition isoPrefix :: "string \<Rightarrow> bool" where
  "isoPrefix s =
     (10 \<le> length s \<and> list_all isDigit (take 4 s) \<and> s ! 4 = CHR ''-''
      \<and> list_all isDigit (take 2 (drop 5 s)) \<and> s ! 7 = CHR ''-''
      \<and> list_all isDigit (take 2 (drop 8 s)))"

text \<open>The separators of \<^verbatim>\<open>dateStr.split(/[/.-]/)\<close>.\<close>

definition isDateSeparator :: "char \<Rightarrow> bool" where
  "isDateSeparator c = (c = CHR ''/'' \<or> c = CHR ''.'' \<or> c = CHR ''-'')"

text \<open>
  The argument is \<open>None\<close> when the caller passes \<^verbatim>\<open>undefined\<close> (a row without the
  date column), which \<^verbatim>\<open>!dateStr\<close> treats like the empty string. In the three-part
  branch \<^verbatim>\<open>toISOString\<close> is called outside any \<^verbatim>\<open>try\<close>, so its RangeError leaves
  the function; the free-form branch checks the date first.
\<close>

definition formatDate :: "host \<Rightarrow> string option \<Rightarrow> error + string" where
  "formatDate h dateValue =
     (case dateValue of
        None \<Rightarrow> Inr []
      | Some dateStr \<Rightarrow>
          if dateStr = [] then Inr []
          else if isoPrefix dateStr then Inr (take 10 dateStr)
          else
            (let parts = split_on isDateSeparator dateStr in
             if length parts = 3 then
               (let month = parseInt (parts ! 0);
                    dy = parseInt (parts ! 1);
                    year = parseInt (parts ! 2);
                    year' = (case year of
                               None \<Rightarrow> None
                             | Some y \<Rightarrow> if y < 100 then Some (y + (if y < 50 then 2000 else 1900))
                                         else Some y)
                in case toISOString (newDate h year' (map_option (\<lambda>m. m - 1) month) dy) of
                     Inl e \<Rightarrow> Inl e
                   | Inr isoText \<Rightarrow> Inr (take 10 isoText))
             else
               (case dateParse h dateStr of
                  Some t \<Rightarrow> (case toISOString (Some t) of
                               Inl e \<Rightarrow> Inr dateStr
                             | Inr isoText \<Rightarrow> Inr (take 10 isoText))
                | None \<Rightarrow> Inr dateStr)))"

subsection \<open>Column mapper (\<^verbatim>\<open>processDataWithMapping\<close>)\<close>

text \<open>
  A row of the parsed CSV file: an object with the header names as keys and the cell
  texts as values. Reading a key the row does not have gives \<^verbatim>\<open>undefined\<close>, here
  \<open>None\<close>.
\<close>

type_synonym row = "string \<rightharpoonup> string"

text \<open>The component's state: the three selected columns.\<close>

record column_mapping =
  dateColumn :: string
  descriptionColumn :: string
  amountColumn :: string

text \<open>\<^verbatim>\<open>amountValue.replace(/[^\d.-]/g, "")\<close>.\<close>

definition stripAmount :: "string \<Rightarrow> string" where
  "stripAmount s = filter (\<lambda>c. isDigit c \<or> c = CHR ''.'' \<or> c = CHR ''-'') s"

text \<open>\<^verbatim>\<open>x || 0\<close> on a number: NaN and zero are falsy.\<close>

definition orZero :: "jsnum \<Rightarrow> jsnum" where
  "orZero x = (if x = NaN \<or> x = Num 0 then Num 0 else x)"

text \<open>
  The callback of \<^verbatim>\<open>rows.map\<close>. The amount is converted only when the cell is a
  string; an absent cell stays \<^verbatim>\<open>undefined\<close>, as an absent description does.
\<close>

definition mapRow ::
  "host \<Rightarrow> column_mapping \<Rightarrow> row \<Rightarrow> nat \<Rightarrow> error + (string option, jsnum option) transaction" where
  "mapRow h cm r index =
     (let dateValue = r (dateColumn cm);
          descValue = r (descriptionColumn cm);
          amountValue = (case r (amountColumn cm) of
                           None \<Rightarrow> None
                         | Some s \<Rightarrow> Some (orZero (parseFloat h (stripAmount s))))
      in case formatDate h dateValue of
           Inl e \<Rightarrow> Inl e
         | Inr d \<Rightarrow> Inr \<lparr>id_tx = ''tx-'' @ showNat index, date = d, description = descValue,
                          amount = amountValue, category = []\<rparr>)"

text \<open>\<^verbatim>\<open>rows.map((row, index) => ...)\<close> from a start index; the first error ends it.\<close>

fun mapRows ::
  "host \<Rightarrow> column_mapping \<Rightarrow> nat \<Rightarrow> row list
     \<Rightarrow> error + (string option, jsnum option) transaction list" where
  "mapRows h cm index [] = Inr []"
| "mapRows h cm index (r # rs) =
     (case mapRow h cm r index of
        Inl e \<Rightarrow> Inl e
      | Inr t \<Rightarrow> (case mapRows h cm (index + 1) rs of
                     Inl e \<Rightarrow> Inl e
                   | Inr ts \<Rightarrow> Inr (t # ts)))"

text \<open>
  The filter \<^verbatim>\<open>tx.description && tx.amount !== 0\<close>: a description is truthy when it
  is a non-empty string; \<^verbatim>\<open>undefined !== 0\<close> holds.
\<close>

definition validEntry :: "(string option, jsnum option) transaction \<Rightarrow> bool" where
  "validEntry tx =
     ((case description tx of None \<Rightarrow> False | Some s \<Rightarrow> s \<noteq> []) \<and> amount tx \<noteq> Some (Num 0))"

definition processDataWithMapping ::
  "host \<Rightarrow> column_mapping \<Rightarrow> row list
     \<Rightarrow> error + (string option, jsnum option) transaction list" where
  "processDataWithMapping h cm rows =
     (case mapRows h cm 0 rows of
        Inl e \<Rightarrow> Inl e
      | Inr txs \<Rightarrow> Inr (filter validEntry txs))"

subsection \<open>Example host and rows\<close>

text \<open>
  A reading of \<^verbatim>\<open>Number.parseFloat\<close> for the examples: white space, a sign, digits
  with an optional fraction, exactly; NaN when no digit is found. (Exponents are not read:
  the mapper has removed every letter before the call.)
\<close>

definition parseFloatDecimal :: "string \<Rightarrow> jsnum" where
  "parseFloatDecimal s =
     (let s1 = dropWhile isWhitespace s;
          (sign, s2) = (case s1 of
                          c # r \<Rightarrow> if c = CHR ''-'' then (- 1, r)
                                   else if c = CHR ''+'' then (1, r) else (1 :: rat, s1)
                        | [] \<Rightarrow> (1, s1));
          whole = takeWhile isDigit s2;
          frac = (case dropWhile isDigit s2 of
                    c # r \<Rightarrow> if c = CHR ''.'' then takeWhile isDigit r else []
                  | [] \<Rightarrow> [])
      in if whole = [] \<and> frac = [] then NaN
         else Num (sign * (of_int (digitsValue whole)
                           + of_int (digitsValue frac) / 10 ^ length frac)))"

text \<open>A host whose local time is \<open>tza\<close> milliseconds ahead of UTC.\<close>

definition exampleHost :: "int \<Rightarrow> host" where
  "exampleHost tza =
     \<lparr>localTZA = (\<lambda>t. tza), dateParse = (\<lambda>s. None), parseFloat = parseFloatDecimal\<rparr>"

definition exampleMapping :: column_mapping where
  "exampleMapping = \<lparr>dateColumn = ''Date'', descriptionColumn = ''Details'', amountColumn = ''Amount''\<rparr>"

text \<open>Three rows, the second with an amount of zero.\<close>

definition rowCoffee :: row where
  "rowCoffee = [''Date'' \<mapsto> ''2024-03-15'', ''Details'' \<mapsto> ''STARBUCKS #123'', ''Amount'' \<mapsto> ''-$45.00'']"

definition rowCheck :: row where
  "rowCheck = [''Date'' \<mapsto> ''2024-03-16'', ''Details'' \<mapsto> ''Card check'', ''Amount'' \<mapsto> ''0.00'']"

definition rowPay :: row where
  "rowPay = [''Date'' \<mapsto> ''2024-03-17'', ''Details'' \<mapsto> ''Paycheck Deposit'', ''Amount'' \<mapsto> ''2,500.00'']"

definition exampleRows :: "row list" where
  "exampleRows = [rowCoffee, rowCheck, rowPay]"

text \<open>An answer for three transactions whose second line is blank.\<close>

definition blankLineMessage :: string where
  "blankLineMessage =
     ''Shopping'' @ [newline] @ ''   '' @ [newline] @ ''Income'' @ [newline] @ ''Travel''"

subsection \<open>Category statistics (\<^verbatim>\<open>getCategoryStats\<close>)\<close>

text \<open>
  The table's transactions have the type \<^verbatim>\<open>Transaction\<close>, whose amount is a number:
  any \<open>jsnum\<close>. (The edit form stores \<^verbatim>\<open>Number.parseFloat\<close> of its input field, which
  is NaN for an empty field.)

  The accumulator \<^verbatim>\<open>stats\<close> is a plain object used as a dictionary. Its own
  properties are modelled as an association list in creation order, with the count and
  the total of each category. Two features of plain objects show through:
  \<^item> \<^verbatim>\<open>stats[category]\<close> also finds the properties inherited from
    \<^verbatim>\<open>Object.prototype\<close>. They are functions (or, for \<^verbatim>\<open>__proto__\<close>, the prototype
    object), hence truthy: for such a category no own property is created, and the two
    increments land on the inherited object.
  \<^item> \<^verbatim>\<open>Object.entries\<close> lists the keys that are array indices first, in ascending
    numeric order, and then the other keys in creation order.
\<close>

definition objectPrototypeKeys :: "string list" where
  "objectPrototypeKeys =
    [''constructor'', ''__defineGetter__'', ''__defineSetter__'', ''hasOwnProperty'',
     ''__lookupGetter__'', ''__lookupSetter__'', ''isPrototypeOf'', ''propertyIsEnumerable'',
     ''toString'', ''valueOf'', ''__proto__'', ''toLocaleString'']"

text \<open>
  An array index: the canonical decimal representation of an integer from 0 to
  \<open>2^32 - 2\<close>.
\<close>

definition isArrayIndex :: "string \<Rightarrow> bool" where
  "isArrayIndex s =
     (s \<noteq> [] \<and> list_all isDigit s \<and> (s = ''0'' \<or> hd s \<noteq> CHR ''0'')
      \<and> digitsValue s < 4294967295)"

text \<open>
  Arithmetic on numbers, as far as the statistics use it: \<^verbatim>\<open>+\<close>, \<^verbatim>\<open>-\<close>,
  \<^verbatim>\<open>/\<close> and the multiplication by 100. A zero divisor is taken to be \<open>+0\<close>, which
  is what a sum that starts from \<open>0\<close> gives when it is zero.
\<close>

fun add_num :: "jsnum \<Rightarrow> jsnum \<Rightarrow> jsnum" where
  "add_num (Num a) (Num b) = Num (a + b)"
| "add_num NaN y = NaN"
| "add_num x NaN = NaN"
| "add_num PosInfinity NegInfinity = NaN"
| "add_num NegInfinity PosInfinity = NaN"
| "add_num PosInfinity y = PosInfinity"
| "add_num x PosInfinity = PosInfinity"
| "add_num NegInfinity y = NegInfinity"
| "add_num x NegInfinity = NegInfinity"

fun neg_num :: "jsnum \<Rightarrow> jsnum" where
  "neg_num (Num a) = Num (- a)"
| "neg_num PosInfinity = NegInfinity"
| "neg_num NegInfinity = PosInfinity"
| "neg_num NaN = NaN"

definition sub_num :: "jsnum \<Rightarrow> jsnum \<Rightarrow> jsnum" where
  "sub_num x y = add_num x (neg_num y)"

fun divide_num :: "jsnum \<Rightarrow> jsnum \<Rightarrow> jsnum" where
  "divide_num (Num a) (Num b) =
     (if b = 0 then (if a = 0 then NaN else if 0 < a then PosInfinity else NegInfinity)
      else Num (a / b))"
| "divide_num NaN y = NaN"
| "divide_num x NaN = NaN"
| "divide_num (Num a) y = Num 0"
| "divide_num PosInfinity (Num b) = (if 0 \<le> b then PosInfinity else NegInfinity)"
| "divide_num NegInfinity (Num b) = (if 0 \<le> b then NegInfinity else PosInfinity)"
| "divide_num x y = NaN"

definition times100 :: "jsnum \<Rightarrow> jsnum" where
  "times100 x = (case x of Num r \<Rightarrow> Num (r * 100) | other \<Rightarrow> other)"

text \<open>\<^verbatim>\<open>Number.isFinite\<close>.\<close>

definition isFinite :: "jsnum \<Rightarrow> bool" where
  "isFinite x = (case x of Num r \<Rightarrow> True | other \<Rightarrow> False)"

text \<open>The comparison \<^verbatim>\<open>x >= y\<close> of two numbers; it is false when one of them is NaN.\<close>

fun geq_num :: "jsnum \<Rightarrow> jsnum \<Rightarrow> bool" where
  "geq_num NaN y = False"
| "geq_num x NaN = False"
| "geq_num (Num a) (Num b) = (b \<le> a)"
| "geq_num PosInfinity y = True"
| "geq_num x NegInfinity = True"
| "geq_num x y = False"

text \<open>\<^verbatim>\<open>x > y\<close>.\<close>

definition gt_num :: "jsnum \<Rightarrow> jsnum \<Rightarrow> bool" where
  "gt_num x y = (geq_num x y \<and> \<not> geq_num y x)"

type_synonym stats = "(string \<times> nat \<times> jsnum) list"

text \<open>\<^verbatim>\<open>transaction.category || "Uncategorized"\<close>.\<close>

definition categoryOf :: "(string, jsnum, 'z) transaction_scheme \<Rightarrow> string" where
  "categoryOf t = (if category t = [] then ''Uncategorized'' else category t)"

text \<open>The two increments on the entry of an own key.\<close>

fun addToEntry :: "string \<Rightarrow> jsnum \<Rightarrow> stats \<Rightarrow> stats" where
  "addToEntry cat a [] = []"
| "addToEntry cat a ((k, n, tot) # rest) =
     (if k = cat then (k, n + 1, add_num tot a) # rest else (k, n, tot) # addToEntry cat a rest)"

text \<open>The body of the \<^verbatim>\<open>forEach\<close> callback.\<close>

definition recordTransaction :: "stats \<Rightarrow> (string, jsnum, 'z) transaction_scheme \<Rightarrow> stats" where
  "recordTransaction st t =
     (let cat = categoryOf t in
      if cat \<in> set objectPrototypeKeys then st
      else (let st' = (if cat \<in> fst ` set st then st else st @ [(cat, 0, Num 0)])
            in addToEntry cat (amount t) st'))"

definition objectEntries :: "stats \<Rightarrow> stats" where
  "objectEntries st =
     sort_key (\<lambda>e. digitsValue (fst e)) (filter (\<lambda>e. isArrayIndex (fst e)) st)
       @ filter (\<lambda>e. \<not> isArrayIndex (fst e)) st"

record category_stat =
  category_stat :: string
  count_stat :: nat
  total_stat :: jsnum
  percentage_stat :: jsnum

text \<open>
  \<^verbatim>\<open>Array.prototype.sort\<close> with the comparator \<^verbatim>\<open>(a, b) => b.total - a.total\<close>.
  A comparator result that is NaN counts as \<open>+0\<close>. The sort is stable, so for a
  consistent comparator its result is determined, and the stable insertion sort below
  computes it. When a total is NaN the comparator is not consistent and the standard
  leaves the order to the engine; the model then gives one of the possible orders.
\<close>

definition compareFn :: "category_stat \<Rightarrow> category_stat \<Rightarrow> jsnum" where
  "compareFn a b = sub_num (total_stat b) (total_stat a)"

text \<open>The comparator result puts its first argument not after its second.\<close>

definition notPositive :: "jsnum \<Rightarrow> bool" where
  "notPositive v = (case v of Num r \<Rightarrow> r \<le> 0 | PosInfinity \<Rightarrow> False | NegInfinity \<Rightarrow> True | NaN \<Rightarrow> True)"

fun insertSorted :: "category_stat \<Rightarrow> category_stat list \<Rightarrow> category_stat list" where
  "insertSorted x [] = [x]"
| "insertSorted x (y # ys) =
     (if notPositive (compareFn x y) then x # y # ys else y # insertSorted x ys)"

definition sortStats :: "category_stat list \<Rightarrow> category_stat list" where
  "sortStats xs = foldr insertSorted xs []"

text \<open>The statistics.\<close>

definition getCategoryStats :: "(string, jsnum, 'z) transaction_scheme list \<Rightarrow> category_stat list" where
  "getCategoryStats transactions =
     (let st = foldl recordTransaction [] transactions;
          sum = foldl (\<lambda>sum t. add_num sum (amount t)) (Num 0) transactions
      in sortStats
           (map (\<lambda>(cat, n, tot).
                   \<lparr>category_stat = cat, count_stat = n, total_stat = tot,
                    percentage_stat = times100 (divide_num tot sum)\<rparr>)
              (objectEntries st)))"

text \<open>
  For stating the order of ties: the position of the first occurrence of a value in a
  list, and the order in which \<^verbatim>\<open>Object.entries\<close> lists two category names given
  the categories of the input in their order.
\<close>

fun firstIndex :: "'a \<Rightarrow> 'a list \<Rightarrow> nat" where
  "firstIndex c [] = 0"
| "firstIndex c (x # xs) = (if x = c then 0 else Suc (firstIndex c xs))"

definition entryBefore :: "string list \<Rightarrow> string \<Rightarrow> string \<Rightarrow> bool" where
  "entryBefore cats a b =
     (if isArrayIndex a then (isArrayIndex b \<longrightarrow> digitsValue a \<le> digitsValue b)
      else \<not> isArrayIndex b \<and> firstIndex a cats < firstIndex b cats)"

text \<open>Example inputs of the statistics.\<close>

definition tableTx :: "string \<Rightarrow> jsnum \<Rightarrow> (string, jsnum) transaction" where
  "tableTx cat a = \<lparr>id_tx = ''tx-0'', date = ''2024-03-15'', description = ''Card payment'',
                   amount = a, category = cat\<rparr>"

text \<open>An answer of the chat endpoint for two transactions.\<close>

definition indexNameMessage :: string where
  "indexNameMessage = ''Shopping'' @ [newline] @ ''7''"

section \<open>Keyword classifier: properties\<close>

lemma str_includes_sublist: "str_includes s k = sublist k s"
proof (induction s)
  case Nil
  then show ?case by simp
next
  case (Cons c s)
  have sw: "startsWith u k = prefix k u" for u
    by (induction u k rule: startsWith.induct) auto
  show ?case
    by (simp add: sw Cons.IH sublist_Cons_right)
qed

lemma matchKeywords_iff:
  "matchKeywords d ks \<longleftrightarrow> (\<exists>k\<in>set ks. str_includes d k)"
  by (induction ks) auto

lemma matchCategories_first:
  assumes "i < length tbl" and "matchKeywords d (snd (tbl ! i))"
  shows "\<exists>m\<le>i. matchCategories d tbl = fst (tbl ! m) \<and> matchKeywords d (snd (tbl ! m))
            \<and> (\<forall>j<m. \<not> matchKeywords d (snd (tbl ! j)))"
  using assms
proof (induction tbl arbitrary: i)
  case Nil
  then show ?case by simp
next
  case (Cons e tbl)
  obtain c ks where e: "e = (c, ks)" by (cases e)
  show ?case
  proof (cases "matchKeywords d ks")
    case True
    then have "matchCategories d (e # tbl) = fst ((e # tbl) ! 0)
        \<and> matchKeywords d (snd ((e # tbl) ! 0))
        \<and> (\<forall>j<0. \<not> matchKeywords d (snd ((e # tbl) ! j)))"
      by (simp add: e)
    then show ?thesis by blast
  next
    case False
    with Cons.prems e obtain i' where i': "i = Suc i'"
      by (cases i) auto
    with Cons.prems have "i' < length tbl" "matchKeywords d (snd (tbl ! i'))"
      by simp_all
    from Cons.IH[OF this] obtain m where m: "m \<le> i'"
        "matchCategories d tbl = fst (tbl ! m)" "matchKeywords d (snd (tbl ! m))"
        "\<forall>j<m. \<not> matchKeywords d (snd (tbl ! j))"
      by blast
    have "\<forall>j<Suc m. \<not> matchKeywords d (snd ((e # tbl) ! j))"
    proof (intro allI impI)
      fix j assume "j < Suc m"
      then show "\<not> matchKeywords d (snd ((e # tbl) ! j))"
        using False m(4) e by (cases j) auto
    qed
    with m False e i' have "Suc m \<le> i \<and> matchCategories d (e # tbl) = fst ((e # tbl) ! Suc m)
        \<and> matchKeywords d (snd ((e # tbl) ! Suc m))
        \<and> (\<forall>j<Suc m. \<not> matchKeywords d (snd ((e # tbl) ! j)))"
      by simp
    then show ?thesis by blast
  qed
qed

lemma matchCategories_range:
  "matchCategories d tbl \<in> fst ` set tbl \<union> {''Uncategorized''}"
proof (induction tbl)
  case Nil
  then show ?case by simp
next
  case (Cons e tbl)
  obtain c ks where e: "e = (c, ks)" by (cases e)
  from Cons.IH show ?case by (cases "matchKeywords d ks") (auto simp: e)
qed

lemma matchCategories_none:
  "(\<forall>e\<in>set tbl. \<not> matchKeywords d (snd e)) \<Longrightarrow> matchCategories d tbl = ''Uncategorized''"
  by (induction tbl) auto

lemma matchCategories_some:
  "\<exists>e\<in>set tbl. matchKeywords d (snd e) \<Longrightarrow> matchCategories d tbl \<in> fst ` set tbl"
proof (induction tbl)
  case Nil
  then show ?case by simp
next
  case (Cons e tbl)
  obtain c ks where e: "e = (c, ks)" by (cases e)
  show ?case
  proof (cases "matchKeywords d ks")
    case True
    then show ?thesis by (simp add: e)
  next
    case False
    with Cons.prems e have "\<exists>e\<in>set tbl. matchKeywords d (snd e)" by auto
    from Cons.IH[OF this] False show ?thesis by (simp add: e)
  qed
qed

lemma category_names:
  "map fst categories =
    [''Shopping'', ''Food & Dining'', ''Groceries'', ''Transportation'', ''Travel'',
     ''Entertainment'', ''Health & Fitness'', ''Bills & Utilities'', ''Education'',
     ''Personal Care'', ''Home'', ''Insurance'', ''Investments'', ''Income'', ''Transfers'',
     ''Subscriptions'']"
  by (simp add: categories_def)

lemma str_includes_map:
  "str_includes s k \<Longrightarrow> str_includes (map f s) (map f k)"
  unfolding str_includes_sublist sublist_def by (metis map_append)

lemma categories_length: "length categories = 16"
  by (simp add: categories_def)

lemma categories_first:
  "categories ! 0 = (''Shopping'',
        [''amazon'', ''walmart'', ''target'', ''ebay'', ''etsy'', ''bestbuy'', ''purchase'', ''shop''])"
  by (simp add: categories_def)

lemma toLowerCase_amazon: "toLowerCase ''amazon'' = ''amazon''"
  by code_simp

lemma amazon_first:
  assumes "str_includes (toLowerCase d) ''amazon''"
  shows "categorizeWithKeywords d = ''Shopping''"
proof -
  have "\<exists>k\<in>set (snd (categories ! 0)). str_includes (toLowerCase d) k"
    unfolding categories_first using assms by simp
  then have "matchKeywords (toLowerCase d) (snd (categories ! 0))"
    by (simp only: matchKeywords_iff)
  moreover have "0 < length categories"
    by (simp add: categories_length)
  ultimately obtain m where "m \<le> 0" "matchCategories (toLowerCase d) categories = fst (categories ! m)"
    using matchCategories_first[of 0 categories "toLowerCase d"] by blast
  then show ?thesis
    by (simp add: categorizeWithKeywords_def categories_first)
qed

lemma names_nonempty: "[] \<notin> fst ` set categories"
proof -
  have "[] \<notin> set (map fst categories)"
    unfolding category_names by simp
  then show ?thesis by simp
qed

text \<open>
  Claim C3. The sixteen category names of the keyword table are exactly the first
  sixteen entries, in the same order, of the vocabulary enumerated in the prompt; the
  prompt has seventeen entries, and the additional one is "Miscellaneous".
\<close>

theorem vocabulary_in_sync:
  "length categories = 16
   \<and> length promptVocabulary = 17
   \<and> take 16 promptVocabulary = map fst categories
   \<and> promptVocabulary = map fst categories @ [''Miscellaneous'']"
  by (simp add: promptVocabulary_def promptLines_def categories_def)

text \<open>
  Claim C4. When keywords of several categories occur in the (lower-cased) description,
  the classifier returns the category that comes first in the table: if a keyword of
  the category at position \<open>i\<close> occurs, the result is the category at the least position
  \<open>m \<le> i\<close> that has an occurring keyword. In particular a description that contains
  "amazon", in any letter case, is classified as "Shopping" whatever else it contains.
\<close>

theorem first_match_wins:
  "(i < length categories \<and> (\<exists>k\<in>set (snd (categories ! i)). str_includes (toLowerCase d) k)
      \<longrightarrow> (\<exists>m\<le>i. categorizeWithKeywords d = fst (categories ! m)
             \<and> (\<exists>k\<in>set (snd (categories ! m)). str_includes (toLowerCase d) k)
             \<and> (\<forall>j<m. \<forall>k\<in>set (snd (categories ! j)). \<not> str_includes (toLowerCase d) k)))
   \<and> (str_includes d ''amazon'' \<or> str_includes (toLowerCase d) ''amazon''
      \<longrightarrow> categorizeWithKeywords d = ''Shopping'')"
proof (intro conjI impI)
  assume "i < length categories \<and> (\<exists>k\<in>set (snd (categories ! i)). str_includes (toLowerCase d) k)"
  then have "i < length categories" "matchKeywords (toLowerCase d) (snd (categories ! i))"
    by (simp_all only: matchKeywords_iff)
  from matchCategories_first[OF this]
  show "\<exists>m\<le>i. categorizeWithKeywords d = fst (categories ! m)
             \<and> (\<exists>k\<in>set (snd (categories ! m)). str_includes (toLowerCase d) k)
             \<and> (\<forall>j<m. \<forall>k\<in>set (snd (categories ! j)). \<not> str_includes (toLowerCase d) k)"
    unfolding categorizeWithKeywords_def matchKeywords_iff by blast
next
  assume a: "str_includes d ''amazon'' \<or> str_includes (toLowerCase d) ''amazon''"
  have "str_includes d ''amazon'' \<Longrightarrow> str_includes (toLowerCase d) ''amazon''"
    using str_includes_map[of d "''amazon''" toLowerChar] toLowerCase_amazon
    by (simp only: toLowerCase_def)
  with a have "str_includes (toLowerCase d) ''amazon''"
    by blast
  then show "categorizeWithKeywords d = ''Shopping''"
    by (rule amazon_first)
qed

theorem first_match_wins_witness:
  "(2 < length categories
      \<and> (\<exists>k\<in>set (snd (categories ! 2)). str_includes (toLowerCase ''AMAZON whole foods market'') k))
   \<and> fst (categories ! 2) = ''Groceries''
   \<and> str_includes (toLowerCase ''AMAZON whole foods market'') ''amazon''
   \<and> categorizeWithKeywords ''AMAZON whole foods market'' = ''Shopping''"
proof -
  have h: "str_includes (toLowerCase ''AMAZON whole foods market'') ''amazon''"
    by code_simp
  have g: "2 < length categories
      \<and> (\<exists>k\<in>set (snd (categories ! 2)). str_includes (toLowerCase ''AMAZON whole foods market'') k)"
    by code_simp
  have n: "fst (categories ! 2) = ''Groceries''"
    by code_simp
  have "categorizeWithKeywords ''AMAZON whole foods market'' = ''Shopping''"
    using first_match_wins[of 2 "''AMAZON whole foods market''", THEN conjunct2] h by (rule mp[OF _ disjI2])
  with h g n show ?thesis
    by blast
qed

text \<open>
  Claim C5. For every description the classifier returns one name, which is a name of its
  sixteen-entry table or "Uncategorized"; it is "Uncategorized" when no keyword occurs
  in the lower-cased description and a table name when one does; it is never the empty
  string. The classifier is a total function of the description string: no branch of
  it raises.
\<close>

theorem categorizeWithKeywords_range:
  "categorizeWithKeywords d \<in> fst ` set categories \<union> {''Uncategorized''}
   \<and> length categories = 16
   \<and> categorizeWithKeywords d \<noteq> []
   \<and> ((\<forall>e\<in>set categories. \<forall>k\<in>set (snd e). \<not> str_includes (toLowerCase d) k)
        \<longrightarrow> categorizeWithKeywords d = ''Uncategorized'')
   \<and> ((\<exists>e\<in>set categories. \<exists>k\<in>set (snd e). str_includes (toLowerCase d) k)
        \<longrightarrow> categorizeWithKeywords d \<in> fst ` set categories)"
proof -
  have r: "categorizeWithKeywords d \<in> fst ` set categories \<union> {''Uncategorized''}"
    unfolding categorizeWithKeywords_def by (rule matchCategories_range)
  have "''Uncategorized'' \<noteq> []"
    by simp
  with r names_nonempty have ne: "categorizeWithKeywords d \<noteq> []"
    by (metis Un_iff singletonD)
  have none: "(\<forall>e\<in>set categories. \<forall>k\<in>set (snd e). \<not> str_includes (toLowerCase d) k)
        \<longrightarrow> categorizeWithKeywords d = ''Uncategorized''"
    unfolding categorizeWithKeywords_def
    using matchCategories_none[of categories "toLowerCase d"]
    unfolding matchKeywords_iff by blast
  have some: "(\<exists>e\<in>set categories. \<exists>k\<in>set (snd e). str_includes (toLowerCase d) k)
        \<longrightarrow> categorizeWithKeywords d \<in> fst ` set categories"
    unfolding categorizeWithKeywords_def
    using matchCategories_some[of categories "toLowerCase d"]
    unfolding matchKeywords_iff by blast
  from r categories_length ne none some show ?thesis
    by (intro conjI)
qed

theorem categorizeWithKeywords_range_witness:
  "\<not> (\<exists>e\<in>set categories. \<exists>k\<in>set (snd e). str_includes (toLowerCase ''random text xyz'') k)
   \<and> categorizeWithKeywords ''random text xyz'' = ''Uncategorized''
   \<and> (\<exists>e\<in>set categories. \<exists>k\<in>set (snd e). str_includes (toLowerCase ''Paid at UBER trip'') k)
   \<and> categorizeWithKeywords ''Paid at UBER trip'' \<in> fst ` set categories"
proof -
  have a: "\<forall>e\<in>set categories. \<forall>k\<in>set (snd e). \<not> str_includes (toLowerCase ''random text xyz'') k"
    by code_simp
  have b: "\<exists>e\<in>set categories. \<exists>k\<in>set (snd e). str_includes (toLowerCase ''Paid at UBER trip'') k"
    by code_simp
  note t1 = categorizeWithKeywords_range[of "''random text xyz''"]
  note t2 = categorizeWithKeywords_range[of "''Paid at UBER trip''"]
  from t1 a have c: "categorizeWithKeywords ''random text xyz'' = ''Uncategorized''"
    by blast
  from t2 b have d: "categorizeWithKeywords ''Paid at UBER trip'' \<in> fst ` set categories"
    by blast
  from a have a': "\<not> (\<exists>e\<in>set categories. \<exists>k\<in>set (snd e).
      str_includes (toLowerCase ''random text xyz'') k)"
    by blast
  from a' b c d show ?thesis
    by (intro conjI)
qed

lemma categorizeWithKeywords_examples:
  "categorizeWithKeywords ''Paid at UBER trip'' = ''Transportation''"
  "categorizeWithKeywords ''AMAZON order'' = ''Shopping''"
  "categorizeWithKeywords ''random text xyz'' = ''Uncategorized''"
  "categorizeWithKeywords ''STARBUCKS #123'' = ''Food & Dining''"
  "categorizeWithKeywords ''Paycheck Deposit'' = ''Income''"
  by code_simp+

section \<open>Remote classifier: properties\<close>

lemma categorizeWithKeywords_nonempty: "categorizeWithKeywords d \<noteq> []"
proof -
  have "categorizeWithKeywords d \<in> fst ` set categories \<union> {''Uncategorized''}"
    unfolding categorizeWithKeywords_def by (rule matchCategories_range)
  moreover have "''Uncategorized'' \<noteq> []"
    by simp
  ultimately show ?thesis
    using names_nonempty by (metis Un_iff singletonD)
qed

lemma categoryAt_nonempty: "categoryAt cats i \<noteq> []"
  by (simp add: categoryAt_def)

lemma responseCategories_nonempty: "c \<in> set (responseCategories msg) \<Longrightarrow> c \<noteq> []"
  by (auto simp: responseCategories_def)

lemma length_keywordFallback: "length (keywordFallback batch) = length batch"
  by (simp add: keywordFallback_def)

lemma processBatch_failed:
  assumes "remoteFailed (fetch (buildPrompt (transactionsText fmt batch))) (length batch)"
  shows "processBatchWithLLM fetch fmt batch = keywordFallback batch"
  using assms
  by (auto simp: processBatchWithLLM_def remoteFailed_def Let_def
      split: fetch_outcome.splits json_outcome.splits)

lemma processBatch_success:
  assumes "fetch (buildPrompt (transactionsText fmt batch)) = Response True status (Content msg)"
    and "length (responseCategories msg) = length batch"
  shows "processBatchWithLLM fetch fmt batch =
     map (\<lambda>(t, index). t\<lparr>category := categoryAt (responseCategories msg) index\<rparr>)
       (zip batch [0..<length batch])"
  using assms by (simp add: processBatchWithLLM_def Let_def)

lemma processBatch_cases:
  "processBatchWithLLM fetch fmt batch = keywordFallback batch
   \<or> (\<exists>cats. processBatchWithLLM fetch fmt batch =
         map (\<lambda>(t, index). t\<lparr>category := categoryAt cats index\<rparr>) (zip batch [0..<length batch]))"
  by (auto simp: processBatchWithLLM_def Let_def split: fetch_outcome.splits json_outcome.splits)

lemma length_processBatch: "length (processBatchWithLLM fetch fmt batch) = length batch"
  using processBatch_cases[of fetch fmt batch] by (auto simp: length_keywordFallback)

lemma processBatch_categorized:
  "list_all2 categorized (processBatchWithLLM fetch fmt batch) batch"
proof -
  have "list_all2 categorized (keywordFallback batch) batch"
    by (simp add: keywordFallback_def list_all2_conv_all_nth categorized_def
        categorizeWithKeywords_nonempty)
  moreover have "list_all2 categorized
      (map (\<lambda>(t, index). t\<lparr>category := categoryAt cats index\<rparr>) (zip batch [0..<length batch])) batch"
    for cats
    by (simp add: list_all2_conv_all_nth categorized_def categoryAt_nonempty)
  ultimately show ?thesis
    using processBatch_cases[of fetch fmt batch] by auto
qed

lemma mkBatches_concat: "concat (mkBatches i xs) = drop i xs"
proof (induction i xs rule: mkBatches.induct)
  case (1 i xs)
  show ?case
  proof (cases "i < length xs")
    case True
    have "take batchSize (drop i xs) @ drop (i + batchSize) xs = drop i xs"
      by (metis add.commute append_take_drop_id drop_drop)
    with True 1 show ?thesis
      by (subst mkBatches.simps) simp
  next
    case False
    then show ?thesis
      by (subst mkBatches.simps) simp
  qed
qed

lemma mkBatches_length: "length (mkBatches i xs) = (length xs - i + 9) div 10"
proof (induction i xs rule: mkBatches.induct)
  case (1 i xs)
  show ?case
  proof (cases "i < length xs")
    case True
    with 1 have "length (mkBatches i xs) = Suc ((length xs - (i + 10) + 9) div 10)"
      by (subst mkBatches.simps) (simp add: batchSize_def)
    also have "\<dots> = (length xs - i + 9) div 10"
    proof (cases "length xs - i < 10")
      case True
      with \<open>i < length xs\<close> have "length xs - (i + 10) = 0" "(length xs - i + 9) div 10 = 1"
        by simp_all
      then show ?thesis by simp
    next
      case False
      then obtain e where e: "length xs - i = e + 10"
        by (metis add.commute le_Suc_ex not_less)
      then have "length xs - (i + 10) = e"
        by simp
      with e show ?thesis by simp
    qed
    finally show ?thesis .
  next
    case False
    then show ?thesis
      by (subst mkBatches.simps) simp
  qed
qed

lemma mkBatches_nth:
  "k < length (mkBatches i xs) \<Longrightarrow> mkBatches i xs ! k = take 10 (drop (i + 10 * k) xs)"
proof (induction i xs arbitrary: k rule: mkBatches.induct)
  case (1 i xs)
  show ?case
  proof (cases "i < length xs")
    case True
    then have unf: "mkBatches i xs = take 10 (drop i xs) # mkBatches (i + 10) xs"
      by (subst mkBatches.simps) (simp add: batchSize_def)
    show ?thesis
    proof (cases k)
      case 0
      then show ?thesis by (simp add: unf)
    next
      case (Suc k')
      with "1.prems" unf have "k' < length (mkBatches (i + 10) xs)"
        by simp
      with "1.IH"[OF True, of k'] have "mkBatches (i + 10) xs ! k' = take 10 (drop (i + 10 + 10 * k') xs)"
        by (simp add: batchSize_def)
      with Suc show ?thesis
        by (simp add: unf add.assoc)
    qed
  next
    case False
    with "1.prems" show ?thesis
      by (subst (asm) mkBatches.simps) simp
  qed
qed

lemma concat_slice:
  assumes "\<forall>j<length rs. length (rs ! j) \<le> n"
    and "\<forall>j. Suc j < length rs \<longrightarrow> length (rs ! j) = n"
    and "k < length rs"
  shows "take n (drop (n * k) (concat rs)) = rs ! k"
  using assms
proof (induction rs arbitrary: k)
  case Nil
  then show ?case by simp
next
  case (Cons r rs)
  show ?case
  proof (cases k)
    case 0
    show ?thesis
    proof (cases rs)
      case Nil
      with Cons.prems(1) 0 show ?thesis by simp
    next
      case (Cons r' rs')
      with Cons.prems(2) have "length r = n" by auto
      with 0 show ?thesis by simp
    qed
  next
    case (Suc k')
    with Cons.prems(3) have k': "k' < length rs" by simp
    then have "Suc 0 < length (r # rs)" by (cases rs) simp_all
    with Cons.prems(2) have len: "length r = n" by fastforce
    have a: "\<forall>j<length rs. length (rs ! j) \<le> n"
      using Cons.prems(1) by fastforce
    have b: "\<forall>j. Suc j < length rs \<longrightarrow> length (rs ! j) = n"
      using Cons.prems(2) by fastforce
    from Cons.IH[OF a b k'] have "take n (drop (n * k') (concat rs)) = rs ! k'" .
    with Suc len show ?thesis by simp
  qed
qed

lemma batch_results:
  fixes transactions :: "(string, 'n, 'z) transaction_scheme list"
  assumes bs_def: "bs = mkBatches 0 transactions"
    and rs_def: "rs = map (\<lambda>(k, batch). processBatchWithLLM (fetch k) fmt batch) (zip [0..<length bs] bs)"
  shows "categorizeWithLLM fetch fmt transactions = concat rs"
    and "length rs = length bs"
    and "k < length bs \<Longrightarrow> rs ! k = processBatchWithLLM (fetch k) fmt (bs ! k)"
    and "k < length bs \<Longrightarrow> length (rs ! k) = length (bs ! k)"
    and "concat bs = transactions"
    and "k < length bs \<Longrightarrow> bs ! k = take 10 (drop (10 * k) transactions)"
    and "Suc k < length bs \<Longrightarrow> length (bs ! k) = 10"
    and "k < length bs \<Longrightarrow> length (bs ! k) \<le> 10"
proof -
  show "categorizeWithLLM fetch fmt transactions = concat rs"
    by (simp add: categorizeWithLLM_def Let_def rs_def bs_def)
  show len: "length rs = length bs"
    by (simp add: rs_def)
  show nth: "rs ! k = processBatchWithLLM (fetch k) fmt (bs ! k)" if "k < length bs" for k
    using that by (simp add: rs_def)
  show "length (rs ! k) = length (bs ! k)" if "k < length bs"
    using that by (simp add: nth length_processBatch)
  show "concat bs = transactions"
    by (simp add: bs_def mkBatches_concat)
  show bnth: "bs ! k = take 10 (drop (10 * k) transactions)" if "k < length bs" for k
    using that mkBatches_nth[of k 0 transactions] by (simp add: bs_def)
  show "length (bs ! k) = 10" if "Suc k < length bs"
  proof -
    from that have "Suc k < (length transactions + 9) div 10"
      by (simp add: bs_def mkBatches_length)
    then have "10 * k + 10 \<le> length transactions"
      by linarith
    moreover from that have "k < length bs" by simp
    ultimately show ?thesis
      by (simp add: bnth)
  qed
  show "length (bs ! k) \<le> 10" if "k < length bs"
    using that by (simp add: bnth)
qed

text \<open>
  Claim C1. For every list of transactions with string descriptions, whatever the chat
  endpoint does for each batch, the remote classifier returns a list of the same length,
  whose \<open>i\<close>-th element is the \<open>i\<close>-th input transaction with a non-empty category and
  all other fields unchanged; the model is a total function, every failure inside a batch
  being a branch of it. Whenever the request of batch \<open>k\<close> is rejected, answers with a
  non-success status or an unusable body, or yields a number of lines different from
  the size of the batch, every transaction of batch \<open>k\<close> (the transactions at positions
  \<open>10 * k + j\<close>) gets exactly the keyword classifier's category of its description.
\<close>

theorem categorizeWithLLM_total_with_fallback:
  fixes transactions :: "(string, 'n, 'z) transaction_scheme list"
  shows "length (categorizeWithLLM fetch toFixed2 transactions) = length transactions
   \<and> (\<forall>i<length transactions.
         categorizeWithLLM fetch toFixed2 transactions ! i =
           (transactions ! i)\<lparr>category := category (categorizeWithLLM fetch toFixed2 transactions ! i)\<rparr>
         \<and> category (categorizeWithLLM fetch toFixed2 transactions ! i) \<noteq> [])
   \<and> (\<forall>k<length (mkBatches 0 transactions).
         remoteFailed
           (fetch k (buildPrompt (transactionsText toFixed2 (mkBatches 0 transactions ! k))))
           (length (mkBatches 0 transactions ! k))
         \<longrightarrow> (\<forall>j<length (mkBatches 0 transactions ! k).
                10 * k + j < length transactions
                \<and> mkBatches 0 transactions ! k ! j = transactions ! (10 * k + j)
                \<and> category (categorizeWithLLM fetch toFixed2 transactions ! (10 * k + j)) =
                    categorizeWithKeywords (description (transactions ! (10 * k + j)))))"
proof -
  define bs where "bs = mkBatches 0 transactions"
  define rs where
    "rs = map (\<lambda>(k, batch). processBatchWithLLM (fetch k) toFixed2 batch) (zip [0..<length bs] bs)"
  define out where "out = categorizeWithLLM fetch toFixed2 transactions"
  note br = batch_results[OF bs_def rs_def, folded out_def]
  have "list_all2 (list_all2 categorized) rs bs"
    unfolding list_all2_conv_all_nth[of "list_all2 categorized"]
    using br(2,3) processBatch_categorized by metis
  then have "list_all2 categorized (concat rs) (concat bs)"
    using concat_transfer[of categorized] unfolding rel_fun_def by blast
  then have all2: "list_all2 categorized out transactions"
    by (simp add: br(1,5))
  then have len: "length out = length transactions"
    by (rule list_all2_lengthD)
  have each: "\<forall>i<length transactions. out ! i = (transactions ! i)\<lparr>category := category (out ! i)\<rparr>
         \<and> category (out ! i) \<noteq> []"
    using list_all2_nthD[OF all2] len by (simp add: categorized_def)
  have fb: "\<forall>k<length bs.
         remoteFailed (fetch k (buildPrompt (transactionsText toFixed2 (bs ! k)))) (length (bs ! k))
         \<longrightarrow> (\<forall>j<length (bs ! k).
                10 * k + j < length transactions
                \<and> bs ! k ! j = transactions ! (10 * k + j)
                \<and> category (out ! (10 * k + j)) =
                    categorizeWithKeywords (description (transactions ! (10 * k + j))))"
  proof (intro allI impI)
    fix k j
    assume k: "k < length bs"
      and failed: "remoteFailed (fetch k (buildPrompt (transactionsText toFixed2 (bs ! k)))) (length (bs ! k))"
      and j: "j < length (bs ! k)"
    have bk: "bs ! k = take 10 (drop (10 * k) transactions)"
      using br(6)[OF k] .
    from j bk have j10: "j < 10" and jn: "10 * k + j < length transactions"
      by auto
    from j bk jn have elem: "bs ! k ! j = transactions ! (10 * k + j)"
      by simp
    have "take 10 (drop (10 * k) (concat rs)) = rs ! k"
    proof (rule concat_slice)
      show "\<forall>j<length rs. length (rs ! j) \<le> 10"
        using br(2,4,8) by metis
      show "\<forall>j. Suc j < length rs \<longrightarrow> length (rs ! j) = 10"
        using br(2,4,7) by (metis Suc_lessD)
      show "k < length rs"
        using k br(2) by simp
    qed
    also have "rs ! k = keywordFallback (bs ! k)"
      using br(3)[OF k] processBatch_failed[of "fetch k" toFixed2 "bs ! k"] failed by simp
    finally have slice: "take 10 (drop (10 * k) out) = keywordFallback (bs ! k)"
      by (simp add: br(1))
    have "out ! (10 * k + j) = take 10 (drop (10 * k) out) ! j"
      using j10 jn len by simp
    also have "\<dots> = (bs ! k ! j)\<lparr>category := categorizeWithKeywords (description (bs ! k ! j))\<rparr>"
      using j by (simp add: slice keywordFallback_def)
    finally have "category (out ! (10 * k + j)) =
        categorizeWithKeywords (description (transactions ! (10 * k + j)))"
      by (simp add: elem)
    with jn elem show "10 * k + j < length transactions
        \<and> bs ! k ! j = transactions ! (10 * k + j)
        \<and> category (out ! (10 * k + j)) =
            categorizeWithKeywords (description (transactions ! (10 * k + j)))"
      by (intro conjI)
  qed
  from len each fb show ?thesis
    unfolding out_def bs_def by (intro conjI)
qed

theorem categorizeWithLLM_total_with_fallback_witness:
  "1 < length (mkBatches 0 elevenTransactions)
   \<and> 0 < length (mkBatches 0 elevenTransactions ! 1)
   \<and> remoteFailed
        (exampleFetch 1 (buildPrompt (transactionsText (\<lambda>a. ''0.00'') (mkBatches 0 elevenTransactions ! 1))))
        (length (mkBatches 0 elevenTransactions ! 1))
   \<and> length (categorizeWithLLM exampleFetch (\<lambda>a. ''0.00'') elevenTransactions) = 11
   \<and> description (elevenTransactions ! 10) = ''Uber Trip''
   \<and> category (categorizeWithLLM exampleFetch (\<lambda>a. ''0.00'') elevenTransactions ! 10) = ''Transportation''"
proof -
  note t = categorizeWithLLM_total_with_fallback[of exampleFetch "\<lambda>a. ''0.00''" elevenTransactions]
  have k: "1 < length (mkBatches 0 elevenTransactions)"
    by code_simp
  have j: "0 < length (mkBatches 0 elevenTransactions ! 1)"
    by code_simp
  have f: "remoteFailed
        (exampleFetch 1 (buildPrompt (transactionsText (\<lambda>a. ''0.00'') (mkBatches 0 elevenTransactions ! 1))))
        (length (mkBatches 0 elevenTransactions ! 1))"
    by (simp add: exampleFetch_def remoteFailed_def)
  have n: "length elevenTransactions = 11"
    by code_simp
  have d: "description (elevenTransactions ! 10) = ''Uber Trip''"
    by code_simp
  have c: "categorizeWithKeywords ''Uber Trip'' = ''Transportation''"
    by code_simp
  from t have "\<forall>k<length (mkBatches 0 elevenTransactions).
         remoteFailed
           (exampleFetch k (buildPrompt (transactionsText (\<lambda>a. ''0.00'') (mkBatches 0 elevenTransactions ! k))))
           (length (mkBatches 0 elevenTransactions ! k))
         \<longrightarrow> (\<forall>j<length (mkBatches 0 elevenTransactions ! k).
                10 * k + j < length elevenTransactions
                \<and> mkBatches 0 elevenTransactions ! k ! j = elevenTransactions ! (10 * k + j)
                \<and> category (categorizeWithLLM exampleFetch (\<lambda>a. ''0.00'') elevenTransactions ! (10 * k + j)) =
                    categorizeWithKeywords (description (elevenTransactions ! (10 * k + j))))"
    by blast
  with k f j have "category (categorizeWithLLM exampleFetch (\<lambda>a. ''0.00'') elevenTransactions ! (10 * 1 + 0)) =
                    categorizeWithKeywords (description (elevenTransactions ! (10 * 1 + 0)))"
    by blast
  then have r: "category (categorizeWithLLM exampleFetch (\<lambda>a. ''0.00'') elevenTransactions ! 10) = ''Transportation''"
    by (simp add: d c)
  from t n have l: "length (categorizeWithLLM exampleFetch (\<lambda>a. ''0.00'') elevenTransactions) = 11"
    by simp
  from k j f l d r show ?thesis
    by (intro conjI)
qed

text \<open>
  Claim C2, as amended. If the request of a batch succeeds and the message has as many
  non-blank lines as the batch has transactions, the result is the batch in its order,
  and transaction \<open>i\<close> has as its category the \<open>i\<close>-th of the non-blank lines,
  trimmed. The blank lines are dropped before the lines are counted and assigned, so
  the category is never empty and the default "Miscellaneous" is not used: the
  expression \<^verbatim>\<open>categories[index] || "Miscellaneous"\<close> gives it only for an absent or
  empty entry.
\<close>

theorem success_assigns_nonblank_lines:
  fixes batch :: "(string, 'n, 'z) transaction_scheme list"
  assumes "fetch (buildPrompt (transactionsText toFixed2 batch)) = Response True status (Content msg)"
    and "length (responseCategories msg) = length batch"
  shows "length (processBatchWithLLM fetch toFixed2 batch) = length batch
   \<and> responseCategories msg =
       map trim (filter (\<lambda>line. trim line \<noteq> []) (split_on (\<lambda>c. c = newline) msg))
   \<and> (\<forall>i<length batch.
         processBatchWithLLM fetch toFixed2 batch ! i =
           (batch ! i)\<lparr>category := responseCategories msg ! i\<rparr>
         \<and> responseCategories msg ! i \<noteq> []
         \<and> categoryAt (responseCategories msg) i = responseCategories msg ! i)
   \<and> (\<forall>cats index. length cats \<le> index \<or> cats ! index = []
         \<longrightarrow> categoryAt cats index = ''Miscellaneous'')"
proof -
  have out: "processBatchWithLLM fetch toFixed2 batch =
     map (\<lambda>(t, index). t\<lparr>category := categoryAt (responseCategories msg) index\<rparr>)
       (zip batch [0..<length batch])"
    using assms by (rule processBatch_success)
  have ne: "responseCategories msg ! i \<noteq> []" if "i < length batch" for i
  proof -
    from that assms(2) have "responseCategories msg ! i \<in> set (responseCategories msg)"
      by simp
    then show ?thesis
      by (rule responseCategories_nonempty)
  qed
  have "processBatchWithLLM fetch toFixed2 batch ! i =
           (batch ! i)\<lparr>category := responseCategories msg ! i\<rparr>
         \<and> responseCategories msg ! i \<noteq> []
         \<and> categoryAt (responseCategories msg) i = responseCategories msg ! i"
    if "i < length batch" for i
    using that ne[OF that] assms(2) by (simp add: out categoryAt_def)
  moreover have "\<forall>cats index. length cats \<le> index \<or> cats ! index = []
         \<longrightarrow> categoryAt cats index = ''Miscellaneous''"
    by (auto simp: categoryAt_def)
  moreover have "length (processBatchWithLLM fetch toFixed2 batch) = length batch"
    by (simp add: out)
  moreover have "responseCategories msg =
       map trim (filter (\<lambda>line. trim line \<noteq> []) (split_on (\<lambda>c. c = newline) msg))"
    by (simp add: responseCategories_def)
  ultimately show ?thesis
    by blast
qed

theorem success_assigns_nonblank_lines_witness:
  "(\<lambda>prompt. Response True 200 (Content exampleMessage))
       (buildPrompt (transactionsText (\<lambda>a. ''0.00'') exampleTransactions))
     = Response True 200 (Content exampleMessage)
   \<and> length (responseCategories exampleMessage) = length exampleTransactions
   \<and> responseCategories exampleMessage = [''Food & Dining'', ''Transportation'', ''Income'']
   \<and> category (processBatchWithLLM (\<lambda>prompt. Response True 200 (Content exampleMessage))
         (\<lambda>a. ''0.00'') exampleTransactions ! 2) = ''Income''
   \<and> categoryAt [''Income'', []] 1 = ''Miscellaneous''"
proof -
  have h1: "(\<lambda>prompt. Response True 200 (Content exampleMessage))
       (buildPrompt (transactionsText (\<lambda>a. ''0.00'') exampleTransactions))
     = Response True 200 (Content exampleMessage)"
    by simp
  have h2: "length (responseCategories exampleMessage) = length exampleTransactions"
    by code_simp
  have h3: "responseCategories exampleMessage = [''Food & Dining'', ''Transportation'', ''Income'']"
    by code_simp
  have h4: "(2::nat) < length exampleTransactions"
    by code_simp
  note t = success_assigns_nonblank_lines[OF h1 h2]
  from t have "length [''Income'', []] \<le> 1 \<or> [''Income'', []] ! 1 = []
      \<longrightarrow> categoryAt [''Income'', []] 1 = ''Miscellaneous''"
    by blast
  then have h5: "categoryAt [''Income'', []] 1 = ''Miscellaneous''"
    by simp
  from t h4
  have "processBatchWithLLM (\<lambda>prompt. Response True 200 (Content exampleMessage))
         (\<lambda>a. ''0.00'') exampleTransactions ! 2 =
        (exampleTransactions ! 2)\<lparr>category := responseCategories exampleMessage ! 2\<rparr>"
    by blast
  then have "category (processBatchWithLLM (\<lambda>prompt. Response True 200 (Content exampleMessage))
         (\<lambda>a. ''0.00'') exampleTransactions ! 2) = ''Income''"
    by (simp add: h3)
  with h1 h2 h3 h5 show ?thesis
    by (intro conjI)
qed

text \<open>
  Claim C2 as stated fails for a message with a blank line. The second of the four
  lines of the message below is empty after trimming; the three transactions get the
  three other lines, the second transaction the third line, and none gets
  "Miscellaneous".
\<close>

theorem blank_line_counterexample:
  "split_on (\<lambda>c. c = newline) blankLineMessage = [''Shopping'', ''   '', ''Income'', ''Travel'']
   \<and> trim ''   '' = []
   \<and> length (responseCategories blankLineMessage) = length exampleTransactions
   \<and> map category
        (processBatchWithLLM (\<lambda>prompt. Response True 200 (Content blankLineMessage))
           (\<lambda>a. ''0.00'') exampleTransactions) = [''Shopping'', ''Income'', ''Travel'']"
proof -
  have a: "split_on (\<lambda>c. c = newline) blankLineMessage = [''Shopping'', ''   '', ''Income'', ''Travel'']"
    "trim ''   '' = []"
    "length (responseCategories blankLineMessage) = length exampleTransactions"
    by code_simp+
  have c: "responseCategories blankLineMessage = [''Shopping'', ''Income'', ''Travel'']"
    by code_simp
  have "processBatchWithLLM (\<lambda>prompt. Response True 200 (Content blankLineMessage))
           (\<lambda>a. ''0.00'') exampleTransactions =
     map (\<lambda>(t, index). t\<lparr>category := categoryAt (responseCategories blankLineMessage) index\<rparr>)
       (zip exampleTransactions [0..<length exampleTransactions])"
    by (rule processBatch_success[where status = 200]) (simp_all add: a(3))
  then have "map category
        (processBatchWithLLM (\<lambda>prompt. Response True 200 (Content blankLineMessage))
           (\<lambda>a. ''0.00'') exampleTransactions) = [''Shopping'', ''Income'', ''Travel'']"
    by (simp add: c exampleTransactions_def categoryAt_def upt_rec)
  with a show ?thesis
    by (intro conjI)
qed

section \<open>Column mapper and date normaliser: examples\<close>

lemma mapRow_examples:
  "mapRow (exampleHost 0) exampleMapping rowCoffee 0 =
     Inr \<lparr>id_tx = ''tx-0'', date = ''2024-03-15'', description = Some ''STARBUCKS #123'',
          amount = Some (Num (- 45)), category = []\<rparr>"
  "mapRow (exampleHost 0) exampleMapping rowCheck 1 =
     Inr \<lparr>id_tx = ''tx-1'', date = ''2024-03-16'', description = Some ''Card check'',
          amount = Some (Num 0), category = []\<rparr>"
  "mapRow (exampleHost 0) exampleMapping rowPay 2 =
     Inr \<lparr>id_tx = ''tx-2'', date = ''2024-03-17'', description = Some ''Paycheck Deposit'',
          amount = Some (Num 2500), category = []\<rparr>"
  by code_simp+

lemma validEntry_examples:
  "validEntry \<lparr>id_tx = ''tx-0'', date = ''2024-03-15'', description = Some ''STARBUCKS #123'',
          amount = Some (Num (- 45)), category = []\<rparr>"
  "\<not> validEntry \<lparr>id_tx = ''tx-1'', date = ''2024-03-16'', description = Some ''Card check'',
          amount = Some (Num 0), category = []\<rparr>"
  "validEntry \<lparr>id_tx = ''tx-2'', date = ''2024-03-17'', description = Some ''Paycheck Deposit'',
          amount = Some (Num 2500), category = []\<rparr>"
  by (simp_all add: validEntry_def)

lemma processDataWithMapping_example:
  "processDataWithMapping (exampleHost 0) exampleMapping exampleRows =
     Inr [\<lparr>id_tx = ''tx-0'', date = ''2024-03-15'', description = Some ''STARBUCKS #123'',
            amount = Some (Num (- 45)), category = []\<rparr>,
          \<lparr>id_tx = ''tx-2'', date = ''2024-03-17'', description = Some ''Paycheck Deposit'',
            amount = Some (Num 2500), category = []\<rparr>]"
proof -
  note r0 = mapRow_examples(1)
  have r1: "mapRow (exampleHost 0) exampleMapping rowCheck (Suc 0) =
     Inr \<lparr>id_tx = ''tx-1'', date = ''2024-03-16'', description = Some ''Card check'',
          amount = Some (Num 0), category = []\<rparr>"
    using mapRow_examples(2) by simp
  have r2: "mapRow (exampleHost 0) exampleMapping rowPay (Suc (Suc 0)) =
     Inr \<lparr>id_tx = ''tx-2'', date = ''2024-03-17'', description = Some ''Paycheck Deposit'',
          amount = Some (Num 2500), category = []\<rparr>"
    using mapRow_examples(3) by (simp add: numeral_2_eq_2)
  show ?thesis
    unfolding processDataWithMapping_def exampleRows_def
    by (simp add: r0 r1 r2 validEntry_examples)
qed

lemma formatDate_examples:
  "formatDate (exampleHost 3600000) (Some ''03/15/2024'') = Inr ''2024-03-14''"
  "formatDate (exampleHost 0) (Some ''03/15/2024'') = Inr ''2024-03-15''"
  "formatDate (exampleHost (- 18000000)) (Some ''03/15/2024'') = Inr ''2024-03-15''"
  "formatDate (exampleHost tza) (Some ''15-Mar-2024'') = Inl RangeError"
  "formatDate (exampleHost tza) (Some ''2024-03-15T10:00:00Z'') = Inr ''2024-03-15''"
  "formatDate (exampleHost tza) (Some ''15'') = Inr ''15''"
  "formatDate (exampleHost tza) (Some '''') = Inr ''''"
  by code_simp+

section \<open>Column mapper: properties\<close>

lemma mapRow_fields:
  assumes "mapRow h cm r index = Inr t"
  shows "id_tx t = ''tx-'' @ showNat index" and "description t = r (descriptionColumn cm)"
    and "category t = []"
  using assms by (auto simp: mapRow_def Let_def split: sum.splits)

lemma mapRows_nth:
  "mapRows h cm index rows = Inr ts \<Longrightarrow>
     length ts = length rows \<and> (\<forall>k<length rows. mapRow h cm (rows ! k) (index + k) = Inr (ts ! k))"
proof (induction rows arbitrary: index ts)
  case Nil
  then show ?case by simp
next
  case (Cons r rows)
  from Cons.prems obtain t ts' where t: "mapRow h cm r index = Inr t"
    and ts': "mapRows h cm (index + 1) rows = Inr ts'" and ts: "ts = t # ts'"
    by (auto split: sum.splits)
  from Cons.IH[OF ts'] have len: "length ts' = length rows"
    and nth: "\<forall>k<length rows. mapRow h cm (rows ! k) (index + 1 + k) = Inr (ts' ! k)"
    by simp_all
  have "mapRow h cm ((r # rows) ! k) (index + k) = Inr (ts ! k)" if "k < length (r # rows)" for k
  proof (cases k)
    case 0
    with t ts show ?thesis by simp
  next
    case (Suc k')
    with that nth ts show ?thesis by simp
  qed
  with len ts show ?case by simp
qed

lemma filter_positions:
  "filter P xs = map ((!) xs) (filter (\<lambda>i. P (xs ! i)) [0..<length xs])"
proof -
  have "filter P (map ((!) xs) [0..<length xs]) =
      map ((!) xs) (filter (P \<circ> (!) xs) [0..<length xs])"
    by (rule filter_map)
  then show ?thesis
    by (simp add: map_nth comp_def)
qed

lemma processDataWithMapping_positions:
  assumes "processDataWithMapping h cm rows = Inr txs"
  shows "\<exists>ts. mapRows h cm 0 rows = Inr ts \<and> length ts = length rows \<and> txs = filter validEntry ts
          \<and> txs = map ((!) ts) (filter (\<lambda>i. validEntry (ts ! i)) [0..<length rows])"
proof -
  from assms obtain ts where ts: "mapRows h cm 0 rows = Inr ts" and txs: "txs = filter validEntry ts"
    by (auto simp: processDataWithMapping_def split: sum.splits)
  from mapRows_nth[OF ts] have len: "length ts = length rows"
    by simp
  from txs filter_positions[of validEntry ts] len
  have "txs = map ((!) ts) (filter (\<lambda>i. validEntry (ts ! i)) [0..<length rows])"
    by simp
  with ts txs len show ?thesis by blast
qed

lemma mapRows_returns:
  assumes "\<forall>r\<in>set rows. \<exists>d. formatDate h (r (dateColumn cm)) = Inr d"
  shows "\<exists>ts. mapRows h cm index rows = Inr ts"
  using assms
proof (induction rows arbitrary: index)
  case Nil
  then show ?case by simp
next
  case (Cons r rows)
  from Cons.prems obtain d where d: "formatDate h (r (dateColumn cm)) = Inr d"
    by auto
  then obtain t where t: "mapRow h cm r index = Inr t"
    by (simp add: mapRow_def Let_def)
  from Cons.prems have "\<forall>r\<in>set rows. \<exists>d. formatDate h (r (dateColumn cm)) = Inr d"
    by simp
  from Cons.IH[OF this, of "index + 1"] obtain ts where "mapRows h cm (index + 1) rows = Inr ts"
    by blast
  with t show ?case by simp
qed

text \<open>The mapper returns whenever the date normaliser does on every date cell.\<close>

lemma processDataWithMapping_returns:
  assumes "\<forall>r\<in>set rows. \<exists>d. formatDate h (r (dateColumn cm)) = Inr d"
  shows "\<exists>txs. processDataWithMapping h cm rows = Inr txs"
  using mapRows_returns[OF assms, of 0] by (auto simp: processDataWithMapping_def)



lemma kept_row_at_position:
  assumes ts: "mapRows h cm 0 rows = Inr ts"
    and txs: "txs = map ((!) ts) (filter (\<lambda>i. validEntry (ts ! i)) [0..<length rows])"
    and ps: "ps = filter (\<lambda>i. validEntry (ts ! i)) [0..<length rows]"
    and k: "k < length txs"
  shows "ps ! k < length rows \<and> mapRow h cm (rows ! (ps ! k)) (ps ! k) = Inr (txs ! k)
      \<and> id_tx (txs ! k) = ''tx-'' @ showNat (ps ! k)"
proof -
  have l: "length ps = length txs"
    by (simp add: txs ps)
  with k have "ps ! k \<in> set ps"
    by (simp only: nth_mem)
  then have inb: "ps ! k < length rows"
    unfolding ps by simp
  have t: "txs = map ((!) ts) ps"
    unfolding ps by (rule txs)
  from k l have "k < length ps"
    by (simp only:)
  then have "map ((!) ts) ps ! k = ts ! (ps ! k)"
    by (rule nth_map)
  then have e: "txs ! k = ts ! (ps ! k)"
    by (simp only: t)
  from mapRows_nth[OF ts] inb
  have "mapRow h cm (rows ! (ps ! k)) (0 + ps ! k) = Inr (ts ! (ps ! k))"
    by blast
  with e have m: "mapRow h cm (rows ! (ps ! k)) (ps ! k) = Inr (txs ! k)"
    by simp
  from mapRow_fields(1)[OF m] inb m show ?thesis
    by simp
qed

lemma kept_positions_increase: "sorted_wrt (<) (filter P [0..<n])"
  by (rule sorted_wrt_filter) simp

text \<open>
  Claim C7. Whenever the mapper returns, its transactions come from rows at strictly
  increasing positions of the input, and each has the id "tx-" followed by the decimal
  position of its row in the unfiltered input. The ids are not renumbered: there is an
  input whose result has the ids "tx-0" and "tx-2".
\<close>

theorem ids_are_original_positions:
  "(processDataWithMapping h cm rows = Inr txs \<longrightarrow>
      (\<exists>ps. length ps = length txs \<and> sorted_wrt (<) ps
         \<and> (\<forall>k<length txs. ps ! k < length rows
               \<and> mapRow h cm (rows ! (ps ! k)) (ps ! k) = Inr (txs ! k)
               \<and> id_tx (txs ! k) = ''tx-'' @ showNat (ps ! k))))
   \<and> (\<exists>h' cm' rows' txs'. processDataWithMapping h' cm' rows' = Inr txs'
         \<and> map id_tx txs' = [''tx-0'', ''tx-2''])"
proof (intro conjI impI)
  assume a: "processDataWithMapping h cm rows = Inr txs"
  from processDataWithMapping_positions[OF a] obtain ts
    where ts: "mapRows h cm 0 rows = Inr ts"
      and txs: "txs = map ((!) ts) (filter (\<lambda>i. validEntry (ts ! i)) [0..<length rows])"
    by blast
  define ps where "ps = filter (\<lambda>i. validEntry (ts ! i)) [0..<length rows]"
  have l: "length ps = length txs"
    by (simp add: txs ps_def)
  have s: "sorted_wrt (<) ps"
    unfolding ps_def by (rule kept_positions_increase)
  have each: "\<forall>k<length txs. ps ! k < length rows
               \<and> mapRow h cm (rows ! (ps ! k)) (ps ! k) = Inr (txs ! k)
               \<and> id_tx (txs ! k) = ''tx-'' @ showNat (ps ! k)"
    using kept_row_at_position[OF ts txs ps_def] by (intro allI impI)
  from l s each have "length ps = length txs \<and> sorted_wrt (<) ps
         \<and> (\<forall>k<length txs. ps ! k < length rows
               \<and> mapRow h cm (rows ! (ps ! k)) (ps ! k) = Inr (txs ! k)
               \<and> id_tx (txs ! k) = ''tx-'' @ showNat (ps ! k))"
    by (intro conjI)
  then show "\<exists>ps. length ps = length txs \<and> sorted_wrt (<) ps
         \<and> (\<forall>k<length txs. ps ! k < length rows
               \<and> mapRow h cm (rows ! (ps ! k)) (ps ! k) = Inr (txs ! k)
               \<and> id_tx (txs ! k) = ''tx-'' @ showNat (ps ! k))"
    by (rule exI)
next
  let ?out = "[\<lparr>id_tx = ''tx-0'', date = ''2024-03-15'', description = Some ''STARBUCKS #123'',
            amount = Some (Num (- 45)), category = []\<rparr>,
          \<lparr>id_tx = ''tx-2'', date = ''2024-03-17'', description = Some ''Paycheck Deposit'',
            amount = Some (Num 2500), category = []\<rparr>]"
  have "map id_tx ?out = [''tx-0'', ''tx-2'']"
    by simp
  with processDataWithMapping_example
  have "processDataWithMapping (exampleHost 0) exampleMapping exampleRows = Inr ?out
         \<and> map id_tx ?out = [''tx-0'', ''tx-2'']"
    by (intro conjI)
  then show "\<exists>h' cm' rows' txs'. processDataWithMapping h' cm' rows' = Inr txs'
         \<and> map id_tx txs' = [''tx-0'', ''tx-2'']"
    by (intro exI)
qed

theorem ids_are_original_positions_witness:
  "processDataWithMapping (exampleHost 0) exampleMapping exampleRows =
     Inr [\<lparr>id_tx = ''tx-0'', date = ''2024-03-15'', description = Some ''STARBUCKS #123'',
            amount = Some (Num (- 45)), category = []\<rparr>,
          \<lparr>id_tx = ''tx-2'', date = ''2024-03-17'', description = Some ''Paycheck Deposit'',
            amount = Some (Num 2500), category = []\<rparr>]
   \<and> (\<exists>ps. length ps = 2 \<and> sorted_wrt (<) ps \<and> ps ! 1 < length exampleRows
         \<and> ''tx-2'' = ''tx-'' @ showNat (ps ! 1))"
proof -
  let ?out = "[\<lparr>id_tx = ''tx-0'', date = ''2024-03-15'', description = Some ''STARBUCKS #123'',
            amount = Some (Num (- 45)), category = []\<rparr>,
          \<lparr>id_tx = ''tx-2'', date = ''2024-03-17'', description = Some ''Paycheck Deposit'',
            amount = Some (Num 2500), category = []\<rparr>]"
  from ids_are_original_positions[of "exampleHost 0" exampleMapping exampleRows ?out]
    processDataWithMapping_example
  obtain ps where ps: "length ps = length ?out" "sorted_wrt (<) ps"
      "\<forall>k<length ?out. ps ! k < length exampleRows
               \<and> mapRow (exampleHost 0) exampleMapping (exampleRows ! (ps ! k)) (ps ! k) = Inr (?out ! k)
               \<and> id_tx (?out ! k) = ''tx-'' @ showNat (ps ! k)"
    by blast
  have "(1::nat) < length ?out"
    by simp
  with ps(3) have "ps ! 1 < length exampleRows \<and> id_tx (?out ! 1) = ''tx-'' @ showNat (ps ! 1)"
    by blast
  then have "ps ! 1 < length exampleRows \<and> ''tx-2'' = ''tx-'' @ showNat (ps ! 1)"
    by simp
  with ps(1,2) have "length ps = 2 \<and> sorted_wrt (<) ps \<and> ps ! 1 < length exampleRows
         \<and> ''tx-2'' = ''tx-'' @ showNat (ps ! 1)"
    by simp
  then have "\<exists>ps. length ps = 2 \<and> sorted_wrt (<) ps \<and> ps ! 1 < length exampleRows
         \<and> ''tx-2'' = ''tx-'' @ showNat (ps ! 1)"
    by (rule exI)
  with processDataWithMapping_example show ?thesis
    by (intro conjI)
qed

section \<open>Date normaliser: properties\<close>

lemma parseInt_examples:
  "parseInt ''Mar'' = None" "parseInt ''15'' = Some 15" "parseInt ''2024'' = Some 2024"
  by code_simp+

lemma formatDate_three_parts_invalid:
  "formatDate h (Some ''15-Mar-2024'') = Inl RangeError"
proof -
  have a: "''15-Mar-2024'' \<noteq> []" "\<not> isoPrefix ''15-Mar-2024''"
    "split_on isDateSeparator ''15-Mar-2024'' = [''15'', ''Mar'', ''2024'']"
    by code_simp+
  show ?thesis
    by (simp add: formatDate_def a parseInt_examples newDate_def toISOString_def Let_def
        del: split_on.simps)
qed

text \<open>
  Claim C8. The three-part branch builds the date as local midnight and prints it with
  \<^verbatim>\<open>toISOString\<close>, which is in UTC. In a host one hour ahead of UTC the date
  "03/15/2024" therefore comes out as the day before, not as "2024-03-15"; and a
  three-part string with a part that is not a number ("15-Mar-2024") makes
  \<^verbatim>\<open>toISOString\<close> throw, in every host, instead of returning a date.
\<close>

theorem formatDate_us_date_east_of_utc:
  "formatDate (exampleHost 3600000) (Some ''03/15/2024'') = Inr ''2024-03-14''
   \<and> formatDate h (Some ''15-Mar-2024'') = Inl RangeError"
proof -
  have "formatDate (exampleHost 3600000) (Some ''03/15/2024'') = Inr ''2024-03-14''"
    by code_simp
  then show ?thesis
    using formatDate_three_parts_invalid by (intro conjI)
qed

section \<open>Category statistics: properties\<close>

subsection \<open>The accumulator\<close>

lemma firstIndex_append_in: "a \<in> set xs \<Longrightarrow> firstIndex a (xs @ ys) = firstIndex a xs"
  by (induction xs) auto

lemma firstIndex_append_new: "a \<notin> set xs \<Longrightarrow> firstIndex a (xs @ [a]) = length xs"
  by (induction xs) auto

lemma firstIndex_less: "a \<in> set xs \<Longrightarrow> firstIndex a xs < length xs"
  by (induction xs) auto

lemma addToEntry_keys: "map fst (addToEntry c a st) = map fst st"
  by (induction st) auto

lemma addToEntry_counts:
  "c \<in> fst ` set st \<Longrightarrow>
     sum_list (map (\<lambda>e. fst (snd e)) (addToEntry c a st)) = Suc (sum_list (map (\<lambda>e. fst (snd e)) st))"
proof (induction st)
  case Nil
  then show ?case by simp
next
  case (Cons e st)
  obtain k n tot where e: "e = (k, n, tot)" by (cases e)
  show ?case
  proof (cases "k = c")
    case True
    then show ?thesis by (simp add: e)
  next
    case False
    with Cons.prems e have "c \<in> fst ` set st" by auto
    from Cons.IH[OF this] False show ?thesis by (simp add: e)
  qed
qed

lemma recordTransaction_inherited:
  "categoryOf t \<in> set objectPrototypeKeys \<Longrightarrow> recordTransaction st t = st"
  by (simp add: recordTransaction_def Let_def)

lemma recordTransaction_keys:
  assumes "categoryOf t \<notin> set objectPrototypeKeys"
  shows "map fst (recordTransaction st t) =
     (if categoryOf t \<in> set (map fst st) then map fst st else map fst st @ [categoryOf t])"
  using assms by (simp add: recordTransaction_def Let_def addToEntry_keys)

lemma recordTransaction_counts:
  assumes "categoryOf t \<notin> set objectPrototypeKeys"
  shows "sum_list (map (\<lambda>e. fst (snd e)) (recordTransaction st t)) =
     Suc (sum_list (map (\<lambda>e. fst (snd e)) st))"
proof (cases "categoryOf t \<in> fst ` set st")
  case True
  with assms show ?thesis
    by (simp add: recordTransaction_def Let_def addToEntry_counts)
next
  case False
  have "categoryOf t \<in> fst ` set (st @ [(categoryOf t, 0, Num 0)])"
    by simp
  from addToEntry_counts[OF this, of "amount t"] False assms show ?thesis
    by (simp add: recordTransaction_def Let_def)
qed

text \<open>
  After the loop the keys of \<open>stats\<close> are the categories of the input that are not
  inherited names, each once, in the order of their first occurrence.
\<close>

lemma stats_keys:
  "distinct (map fst (foldl recordTransaction [] txs))
    \<and> set (map fst (foldl recordTransaction [] txs)) = set (map categoryOf txs) - set objectPrototypeKeys
    \<and> sorted_wrt (\<lambda>a b. firstIndex a (map categoryOf txs) < firstIndex b (map categoryOf txs))
         (map fst (foldl recordTransaction [] txs))"
proof (induction txs rule: rev_induct)
  case Nil
  then show ?case by simp
next
  case (snoc t txs)
  define st where "st = foldl recordTransaction [] txs"
  define cats where "cats = map categoryOf txs"
  define c where "c = categoryOf t"
  from snoc.IH have d: "distinct (map fst st)"
    and s: "set (map fst st) = set cats - set objectPrototypeKeys"
    and o: "sorted_wrt (\<lambda>a b. firstIndex a cats < firstIndex b cats) (map fst st)"
    by (simp_all only: st_def cats_def)
  have step: "foldl recordTransaction [] (txs @ [t]) = recordTransaction st t"
    by (simp add: st_def)
  have cats': "map categoryOf (txs @ [t]) = cats @ [c]"
    by (simp add: cats_def c_def)
  from s have sub: "set (map fst st) \<subseteq> set cats"
    by blast
  have o': "sorted_wrt (\<lambda>a b. firstIndex a (cats @ [c]) < firstIndex b (cats @ [c])) (map fst st)"
  proof (rule sorted_wrt_mono_rel[OF _ o])
    fix a b assume "a \<in> set (map fst st)" "b \<in> set (map fst st)"
      and "firstIndex a cats < firstIndex b cats"
    with sub have "a \<in> set cats" "b \<in> set cats" "firstIndex a cats < firstIndex b cats"
      by blast+
    then show "firstIndex a (cats @ [c]) < firstIndex b (cats @ [c])"
      by (simp only: firstIndex_append_in)
  qed
  show ?case
  proof (cases "c \<in> set objectPrototypeKeys")
    case True
    then have same: "recordTransaction st t = st"
      unfolding c_def by (rule recordTransaction_inherited)
    from s True have "set (map fst st) = set (cats @ [c]) - set objectPrototypeKeys"
      by auto
    with d o' show ?thesis
      by (simp only: step cats' same)
  next
    case False
    have keys: "map fst (recordTransaction st t) =
        (if c \<in> set (map fst st) then map fst st else map fst st @ [c])"
      unfolding c_def by (rule recordTransaction_keys[OF False[unfolded c_def]])
    have D: "distinct (map fst (recordTransaction st t))"
      unfolding keys using d by simp
    have S: "set (map fst (recordTransaction st t)) = set (cats @ [c]) - set objectPrototypeKeys"
      unfolding keys using s False by auto
    have O: "sorted_wrt (\<lambda>a b. firstIndex a (cats @ [c]) < firstIndex b (cats @ [c]))
        (map fst (recordTransaction st t))"
    proof (cases "c \<in> set (map fst st)")
      case True
      with o' show ?thesis by (simp only: keys if_True)
    next
      case notin: False
      with s False have new: "c \<notin> set cats" by simp
      have "firstIndex a (cats @ [c]) < firstIndex c (cats @ [c])" if "a \<in> set (map fst st)" for a
      proof -
        from that sub have "a \<in> set cats" by blast
        then show ?thesis
          by (simp add: firstIndex_append_in firstIndex_append_new[OF new] firstIndex_less)
      qed
      with o' have "sorted_wrt (\<lambda>a b. firstIndex a (cats @ [c]) < firstIndex b (cats @ [c]))
          (map fst st @ [c])"
        by (simp add: sorted_wrt_append)
      with notin show ?thesis by (simp only: keys if_False)
    qed
    from D S O show ?thesis
      by (simp only: step cats')
  qed
qed

lemma stats_counts:
  assumes "\<forall>t\<in>set txs. categoryOf t \<notin> set objectPrototypeKeys"
  shows "sum_list (map (\<lambda>e. fst (snd e)) (foldl recordTransaction [] txs)) = length txs"
  using assms
proof (induction txs rule: rev_induct)
  case Nil
  then show ?case by simp
next
  case (snoc t txs)
  then have "sum_list (map (\<lambda>e. fst (snd e)) (foldl recordTransaction [] txs)) = length txs"
    and "categoryOf t \<notin> set objectPrototypeKeys"
    by simp_all
  then show ?case
    by (simp add: recordTransaction_counts)
qed

subsection \<open>Comparison of numbers\<close>

lemma geq_num_refl: "x \<noteq> NaN \<Longrightarrow> geq_num x x"
  by (cases x) simp_all

lemma geq_num_total: "x \<noteq> NaN \<Longrightarrow> y \<noteq> NaN \<Longrightarrow> geq_num x y \<or> geq_num y x"
  by (cases x; cases y) auto

lemma geq_num_trans: "geq_num x y \<Longrightarrow> geq_num y z \<Longrightarrow> geq_num x z"
  by (cases x; cases y; cases z) auto

lemma geq_num_antisym: "geq_num x y \<Longrightarrow> geq_num y x \<Longrightarrow> x = y"
  by (cases x; cases y) auto

lemma geq_num_not_NaN: "geq_num x y \<Longrightarrow> x \<noteq> NaN \<and> y \<noteq> NaN"
  by (cases x; cases y) auto

lemma notPositive_compareFn:
  "total_stat x \<noteq> NaN \<Longrightarrow> total_stat y \<noteq> NaN \<Longrightarrow>
     notPositive (compareFn x y) = geq_num (total_stat x) (total_stat y)"
  by (cases "total_stat x"; cases "total_stat y")
    (auto simp: compareFn_def sub_num_def notPositive_def)

subsection \<open>The sort\<close>

lemma set_insertSorted: "set (insertSorted x ys) = insert x (set ys)"
  by (induction ys) auto

lemma set_sortStats: "set (sortStats xs) = set xs"
  by (induction xs) (simp_all add: sortStats_def set_insertSorted)

lemma sortStats_Cons: "sortStats (x # xs) = insertSorted x (sortStats xs)"
  by (simp add: sortStats_def)

lemma sum_list_insertSorted:
  "sum_list (map f (insertSorted x ys)) = f x + sum_list (map f ys)" for f :: "category_stat \<Rightarrow> nat"
  by (induction ys) auto

lemma sum_list_sortStats:
  "sum_list (map f (sortStats xs)) = sum_list (map f xs)" for f :: "category_stat \<Rightarrow> nat"
  by (induction xs) (simp_all add: sortStats_def sum_list_insertSorted)

text \<open>
  Without a NaN total the sort puts greater totals first and keeps entries of equal
  total in the order \<open>before\<close> in which they were given.
\<close>

lemma insertSorted_ties:
  assumes "total_stat x \<noteq> NaN" and "\<forall>y\<in>set ys. total_stat y \<noteq> NaN"
    and "sorted_wrt (\<lambda>a b. gt_num (total_stat a) (total_stat b)
          \<or> (total_stat a = total_stat b \<and> before a b)) ys"
    and "\<forall>y\<in>set ys. before x y"
  shows "sorted_wrt (\<lambda>a b. gt_num (total_stat a) (total_stat b)
          \<or> (total_stat a = total_stat b \<and> before a b)) (insertSorted x ys)"
  using assms
proof (induction ys)
  case Nil
  then show ?case by simp
next
  case (Cons y ys)
  from Cons.prems have nx: "total_stat x \<noteq> NaN" and ny: "total_stat y \<noteq> NaN"
    by simp_all
  show ?case
  proof (cases "geq_num (total_stat x) (total_stat y)")
    case True
    have "gt_num (total_stat x) (total_stat z) \<or> (total_stat x = total_stat z \<and> before x z)"
      if "z \<in> set (y # ys)" for z
    proof -
      have "geq_num (total_stat y) (total_stat z)"
      proof (cases "z = y")
        case True
        with ny show ?thesis by (simp add: geq_num_refl)
      next
        case False
        with that Cons.prems(3) have "gt_num (total_stat y) (total_stat z)
            \<or> (total_stat y = total_stat z \<and> before y z)"
          by auto
        with ny show ?thesis
          by (auto simp: gt_num_def geq_num_refl)
      qed
      with True have xz: "geq_num (total_stat x) (total_stat z)"
        by (rule geq_num_trans)
      from that Cons.prems(4) have b: "before x z"
        by blast
      show ?thesis
      proof (cases "geq_num (total_stat z) (total_stat x)")
        case True
        with xz have "total_stat x = total_stat z"
          by (rule geq_num_antisym)
        with b show ?thesis by simp
      next
        case False
        with xz show ?thesis by (simp add: gt_num_def)
      qed
    qed
    with True Cons.prems(3) nx ny show ?thesis
      by (simp add: notPositive_compareFn)
  next
    case False
    with geq_num_total[OF nx ny] have yx: "gt_num (total_stat y) (total_stat x)"
      by (simp add: gt_num_def)
    from Cons.prems have "sorted_wrt (\<lambda>a b. gt_num (total_stat a) (total_stat b)
          \<or> (total_stat a = total_stat b \<and> before a b)) (insertSorted x ys)"
      by (intro Cons.IH) simp_all
    moreover have "gt_num (total_stat y) (total_stat z) \<or> (total_stat y = total_stat z \<and> before y z)"
      if "z \<in> set (insertSorted x ys)" for z
    proof -
      from that have "z = x \<or> z \<in> set ys"
        by (simp add: set_insertSorted)
      with yx Cons.prems(3) show ?thesis
        by auto
    qed
    ultimately show ?thesis
      using False nx ny by (simp add: notPositive_compareFn)
  qed
qed

lemma sortStats_ties:
  assumes "\<forall>s\<in>set xs. total_stat s \<noteq> NaN" and "sorted_wrt before xs"
  shows "sorted_wrt (\<lambda>a b. gt_num (total_stat a) (total_stat b)
          \<or> (total_stat a = total_stat b \<and> before a b)) (sortStats xs)"
  using assms
proof (induction xs)
  case Nil
  then show ?case by (simp add: sortStats_def)
next
  case (Cons x xs)
  from Cons.prems have "total_stat x \<noteq> NaN" and "\<forall>y\<in>set (sortStats xs). total_stat y \<noteq> NaN"
    and "sorted_wrt (\<lambda>a b. gt_num (total_stat a) (total_stat b)
          \<or> (total_stat a = total_stat b \<and> before a b)) (sortStats xs)"
    and "\<forall>y\<in>set (sortStats xs). before x y"
    by (simp_all add: set_sortStats Cons.IH)
  then show ?case
    unfolding sortStats_Cons by (rule insertSorted_ties)
qed

subsection \<open>The order of the entries\<close>

lemma sum_list_filter_split:
  "sum_list (map f (filter P xs)) + sum_list (map f (filter (\<lambda>x. \<not> P x) xs)) = sum_list (map f xs)"
  for f :: "'a \<Rightarrow> nat"
  by (induction xs) auto

lemma sum_list_sort_key:
  "sum_list (map f (sort_key k xs)) = sum_list (map f xs)"
  for f :: "'a \<Rightarrow> nat" and k :: "'a \<Rightarrow> 'k::linorder"
proof (induction xs)
  case Nil
  then show ?case by simp
next
  case (Cons x xs)
  have "sum_list (map f (insort_key k x ys)) = f x + sum_list (map f ys)" for ys
    by (induction ys) auto
  with Cons show ?case by simp
qed

lemma sum_list_objectEntries:
  "sum_list (map f (objectEntries st)) = sum_list (map f st)" for f :: "_ \<Rightarrow> nat"
  by (simp add: objectEntries_def sum_list_sort_key sum_list_filter_split)

lemma set_objectEntries: "set (objectEntries st) = set st"
  by (auto simp: objectEntries_def)

lemma objectEntries_order:
  assumes "sorted_wrt (\<lambda>a b. firstIndex a cats < firstIndex b cats) (map fst st)"
  shows "sorted_wrt (\<lambda>a b. entryBefore cats (fst a) (fst b)) (objectEntries st)"
proof -
  let ?idx = "filter (\<lambda>e. isArrayIndex (fst e)) st"
  let ?oth = "filter (\<lambda>e. \<not> isArrayIndex (fst e)) st"
  have "sorted (map (\<lambda>e. digitsValue (fst e)) (sort_key (\<lambda>e. digitsValue (fst e)) ?idx))"
    by (rule sorted_sort_key)
  then have "sorted_wrt (\<lambda>a b. digitsValue (fst a) \<le> digitsValue (fst b))
      (sort_key (\<lambda>e. digitsValue (fst e)) ?idx)"
    by (simp only: sorted_map)
  then have A: "sorted_wrt (\<lambda>a b. entryBefore cats (fst a) (fst b))
      (sort_key (\<lambda>e. digitsValue (fst e)) ?idx)"
    by (rule sorted_wrt_mono_rel[rotated]) (auto simp: entryBefore_def)
  from assms have "sorted_wrt (\<lambda>a b. firstIndex (fst a) cats < firstIndex (fst b) cats) st"
    by (simp only: sorted_wrt_map)
  then have "sorted_wrt (\<lambda>a b. firstIndex (fst a) cats < firstIndex (fst b) cats) ?oth"
    by (rule sorted_wrt_filter)
  then have B: "sorted_wrt (\<lambda>a b. entryBefore cats (fst a) (fst b)) ?oth"
    by (rule sorted_wrt_mono_rel[rotated]) (auto simp: entryBefore_def)
  have C: "entryBefore cats (fst a) (fst b)"
    if "a \<in> set (sort_key (\<lambda>e. digitsValue (fst e)) ?idx)" "b \<in> set ?oth" for a b
    using that by (auto simp: entryBefore_def)
  from A B C show ?thesis
    by (simp add: objectEntries_def sorted_wrt_append)
qed

subsection \<open>The statistics\<close>

lemma stat_of_entry:
  "category_stat (case e of (cat, n, tot) \<Rightarrow>
      \<lparr>category_stat = cat, count_stat = n, total_stat = tot, percentage_stat = p tot\<rparr>) = fst e"
  "count_stat (case e of (cat, n, tot) \<Rightarrow>
      \<lparr>category_stat = cat, count_stat = n, total_stat = tot, percentage_stat = p tot\<rparr>) = fst (snd e)"
  "total_stat (case e of (cat, n, tot) \<Rightarrow>
      \<lparr>category_stat = cat, count_stat = n, total_stat = tot, percentage_stat = p tot\<rparr>) = snd (snd e)"
  "percentage_stat (case e of (cat, n, tot) \<Rightarrow>
      \<lparr>category_stat = cat, count_stat = n, total_stat = tot, percentage_stat = p tot\<rparr>) = p (snd (snd e))"
  by (cases e; simp)+

text \<open>The statistics are the sorted list of the entries of the accumulator.\<close>

lemma getCategoryStats_entries:
  fixes txs :: "(string, jsnum, 'z) transaction_scheme list"
  obtains es where "getCategoryStats txs = sortStats es"
    and "map category_stat es = map fst (objectEntries (foldl recordTransaction [] txs))"
    and "map count_stat es = map (\<lambda>e. fst (snd e)) (objectEntries (foldl recordTransaction [] txs))"
    and "map total_stat es = map (\<lambda>e. snd (snd e)) (objectEntries (foldl recordTransaction [] txs))"
    and "map percentage_stat es =
      map (\<lambda>e. times100 (divide_num (snd (snd e)) (foldl (\<lambda>sum t. add_num sum (amount t)) (Num 0) txs)))
        (objectEntries (foldl recordTransaction [] txs))"
proof -
  define sum where "sum = foldl (\<lambda>sum t. add_num sum (amount t)) (Num 0) txs"
  define mk where "mk = (\<lambda>(cat, n, tot).
      \<lparr>category_stat = cat, count_stat = n, total_stat = tot,
       percentage_stat = times100 (divide_num tot sum)\<rparr>)"
  define es where "es = map mk (objectEntries (foldl recordTransaction [] txs))"
  have "getCategoryStats txs = sortStats es"
    by (simp add: getCategoryStats_def Let_def sum_def[symmetric] mk_def[symmetric] es_def)
  moreover have "map category_stat es = map fst (objectEntries (foldl recordTransaction [] txs))"
    by (simp add: es_def mk_def stat_of_entry)
  moreover have "map count_stat es =
      map (\<lambda>e. fst (snd e)) (objectEntries (foldl recordTransaction [] txs))"
    by (simp add: es_def mk_def stat_of_entry)
  moreover have "map total_stat es =
      map (\<lambda>e. snd (snd e)) (objectEntries (foldl recordTransaction [] txs))"
    by (simp add: es_def mk_def stat_of_entry)
  moreover have "map percentage_stat es =
      map (\<lambda>e. times100 (divide_num (snd (snd e)) sum))
        (objectEntries (foldl recordTransaction [] txs))"
    by (simp add: es_def mk_def stat_of_entry)
  ultimately show thesis
    unfolding sum_def by (rule that)
qed

lemma stat_percentage:
  fixes txs :: "(string, jsnum, 'z) transaction_scheme list"
  assumes "s \<in> set (getCategoryStats txs)"
  shows "percentage_stat s =
     times100 (divide_num (total_stat s) (foldl (\<lambda>sum t. add_num sum (amount t)) (Num 0) txs))"
proof -
  from assms obtain e where "s = (case e of (cat, n, tot) \<Rightarrow>
      \<lparr>category_stat = cat, count_stat = n, total_stat = tot,
       percentage_stat =
         times100 (divide_num tot (foldl (\<lambda>sum t. add_num sum (amount t)) (Num 0) txs))\<rparr>)"
    by (auto simp: getCategoryStats_def Let_def set_sortStats)
  then show ?thesis
    by (simp only: stat_of_entry)
qed

lemma divide_by_zero_not_finite: "\<not> isFinite (times100 (divide_num a (Num 0)))"
  by (cases a) (simp_all add: times100_def isFinite_def)

lemma add_num_finite: "isFinite x \<Longrightarrow> isFinite y \<Longrightarrow> isFinite (add_num x y)"
  by (cases x; cases y) (simp_all add: isFinite_def)

lemma addToEntry_finite:
  "isFinite a \<Longrightarrow> \<forall>e\<in>set st. isFinite (snd (snd e)) \<Longrightarrow>
     \<forall>e\<in>set (addToEntry c a st). isFinite (snd (snd e))"
proof (induction st)
  case Nil
  then show ?case by simp
next
  case (Cons e st)
  obtain k n tot where e: "e = (k, n, tot)" by (cases e)
  from Cons.prems e have tot: "isFinite tot" and rest: "\<forall>e\<in>set st. isFinite (snd (snd e))"
    by simp_all
  show ?case
  proof (cases "k = c")
    case True
    with tot rest Cons.prems(1) show ?thesis
      by (simp add: e add_num_finite)
  next
    case False
    with tot Cons.IH[OF Cons.prems(1) rest] show ?thesis
      by (simp add: e)
  qed
qed

lemma recordTransaction_finite:
  assumes "isFinite (amount t)" and "\<forall>e\<in>set st. isFinite (snd (snd e))"
  shows "\<forall>e\<in>set (recordTransaction st t). isFinite (snd (snd e))"
proof (cases "categoryOf t \<in> set objectPrototypeKeys")
  case True
  with assms(2) show ?thesis
    by (simp add: recordTransaction_inherited)
next
  case False
  have new: "\<forall>e\<in>set (st @ [(categoryOf t, 0, Num 0)]). isFinite (snd (snd e))"
    using assms(2) by (simp add: isFinite_def)
  have "\<forall>e\<in>set (addToEntry (categoryOf t) (amount t) st). isFinite (snd (snd e))"
    using assms by (rule addToEntry_finite)
  moreover have "\<forall>e\<in>set (addToEntry (categoryOf t) (amount t) (st @ [(categoryOf t, 0, Num 0)])).
        isFinite (snd (snd e))"
    using assms(1) new by (rule addToEntry_finite)
  ultimately show ?thesis
    using False by (simp add: recordTransaction_def Let_def)
qed

lemma stats_totals_finite:
  assumes "\<forall>t\<in>set txs. isFinite (amount t)"
  shows "\<forall>e\<in>set (foldl recordTransaction [] txs). isFinite (snd (snd e))"
  using assms
proof (induction txs rule: rev_induct)
  case Nil
  then show ?case by simp
next
  case (snoc t txs)
  then have "isFinite (amount t)" "\<forall>e\<in>set (foldl recordTransaction [] txs). isFinite (snd (snd e))"
    by simp_all
  then have "\<forall>e\<in>set (recordTransaction (foldl recordTransaction [] txs) t). isFinite (snd (snd e))"
    by (rule recordTransaction_finite)
  then show ?case by simp
qed

lemma stats_examples:
  "map total_stat (getCategoryStats [tableTx ''Shopping'' NaN, tableTx ''Groceries'' (Num 5)]) = [NaN, Num 5]"
  "categorizeWithLLM (\<lambda>k prompt. Response True 200 (Content indexNameMessage)) (\<lambda>a. ''50.00'')
       [tableTx [] (Num 50), tableTx [] (Num 50)] =
     [tableTx ''Shopping'' (Num 50), tableTx ''7'' (Num 50)]"
  "map category_stat (getCategoryStats [tableTx ''Shopping'' (Num 50), tableTx ''7'' (Num 50)]) = [''7'', ''Shopping'']"
  "map total_stat (getCategoryStats [tableTx ''Shopping'' (Num 50), tableTx ''7'' (Num 50)]) = [Num 50, Num 50]"
  "getCategoryStats [tableTx ''constructor'' (Num 5)] = []"
  by code_simp+

lemma stats_examples2:
  "map category_stat
     (getCategoryStats [tableTx ''Shopping'' (Num 50), tableTx ''Food & Dining'' (Num 100),
        tableTx ''Shopping'' (Num 50), tableTx [] (Num 100), tableTx ''Income'' (Num 500)]) =
     [''Income'', ''Shopping'', ''Food & Dining'', ''Uncategorized'']"
  "map total_stat
     (getCategoryStats [tableTx ''Shopping'' (Num 50), tableTx ''Food & Dining'' (Num 100),
        tableTx ''Shopping'' (Num 50), tableTx [] (Num 100), tableTx ''Income'' (Num 500)]) =
     [Num 500, Num 100, Num 100, Num 100]"
  "\<not> (\<exists>t\<in>set [tableTx ''Shopping'' (Num 50), tableTx ''Food & Dining'' (Num 100),
        tableTx ''Shopping'' (Num 50), tableTx [] (Num 100), tableTx ''Income'' (Num 500)].
        \<not> isFinite (amount t))"
  "\<not> (\<exists>t\<in>set [tableTx ''Shopping'' (Num 50), tableTx ''Food & Dining'' (Num 100),
        tableTx ''Shopping'' (Num 50), tableTx [] (Num 100), tableTx ''Income'' (Num 500)].
        categoryOf t \<in> set objectPrototypeKeys)"
  "\<not> (\<exists>t\<in>set [tableTx ''Shopping'' (Num 50), tableTx ''Food & Dining'' (Num 100),
        tableTx ''Shopping'' (Num 50), tableTx [] (Num 100), tableTx ''Income'' (Num 500)].
        isArrayIndex (categoryOf t))"
  by code_simp+

lemma stats_examples3:
  "map percentage_stat
     (getCategoryStats [tableTx ''Income'' (Num 100), tableTx ''Shopping'' (Num (- 100))]) =
     [PosInfinity, NegInfinity]"
  "foldl (\<lambda>sum t. add_num sum (amount t)) (Num 0)
     [tableTx ''Income'' (Num 100), tableTx ''Shopping'' (Num (- 100))] = Num 0"
  "map percentage_stat (getCategoryStats [tableTx ''Shopping'' (Num 100), tableTx ''Income'' (Num 50)]) =
     [Num (200 / 3), Num (100 / 3)]"
  by code_simp+

lemma stats_categories:
  fixes txs :: "(string, jsnum, 'z) transaction_scheme list"
  shows "set (map category_stat (getCategoryStats txs)) = set (map categoryOf txs) - set objectPrototypeKeys"
proof -
  obtain es where out: "getCategoryStats txs = sortStats es"
    and c: "map category_stat es = map fst (objectEntries (foldl recordTransaction [] txs))"
    by (rule getCategoryStats_entries)
  have "set (map category_stat (sortStats es)) = set (map category_stat es)"
    by (simp add: set_sortStats)
  also have "\<dots> = set (map fst (foldl recordTransaction [] txs))"
    by (simp only: c) (simp add: set_objectEntries)
  also have "\<dots> = set (map categoryOf txs) - set objectPrototypeKeys"
    using stats_keys[of txs] by blast
  finally show ?thesis
    by (simp only: out)
qed

lemma stats_count_sum:
  fixes txs :: "(string, jsnum, 'z) transaction_scheme list"
  assumes "\<forall>t\<in>set txs. categoryOf t \<notin> set objectPrototypeKeys"
  shows "sum_list (map count_stat (getCategoryStats txs)) = length txs"
proof -
  obtain es where out: "getCategoryStats txs = sortStats es"
    and n: "map count_stat es = map (\<lambda>e. fst (snd e)) (objectEntries (foldl recordTransaction [] txs))"
    by (rule getCategoryStats_entries)
  have "sum_list (map count_stat (sortStats es)) = sum_list (map count_stat es)"
    by (rule sum_list_sortStats)
  also have "\<dots> = sum_list (map (\<lambda>e. fst (snd e)) (foldl recordTransaction [] txs))"
    by (simp only: n sum_list_objectEntries)
  also have "\<dots> = length txs"
    using assms by (rule stats_counts)
  finally show ?thesis
    by (simp only: out)
qed

lemma stats_no_NaN:
  fixes txs :: "(string, jsnum, 'z) transaction_scheme list"
  assumes "\<forall>t\<in>set txs. isFinite (amount t)"
  shows "\<forall>s\<in>set (getCategoryStats txs). total_stat s \<noteq> NaN"
proof
  fix s assume "s \<in> set (getCategoryStats txs)"
  moreover obtain es where out: "getCategoryStats txs = sortStats es"
    and t: "map total_stat es = map (\<lambda>e. snd (snd e)) (objectEntries (foldl recordTransaction [] txs))"
    by (rule getCategoryStats_entries)
  ultimately have "s \<in> set es"
    by (simp add: set_sortStats)
  then have "total_stat s \<in> set (map total_stat es)"
    by (simp only: set_map) (rule imageI)
  then obtain e where "e \<in> set (foldl recordTransaction [] txs)" "total_stat s = snd (snd e)"
    unfolding t by (auto simp: set_objectEntries)
  with stats_totals_finite[OF assms] have "isFinite (total_stat s)"
    by simp
  then show "total_stat s \<noteq> NaN"
    by (auto simp: isFinite_def)
qed

lemma stats_order:
  fixes txs :: "(string, jsnum, 'z) transaction_scheme list"
  assumes "\<forall>s\<in>set (getCategoryStats txs). total_stat s \<noteq> NaN"
  shows "sorted_wrt
     (\<lambda>a b. gt_num (total_stat a) (total_stat b)
        \<or> (total_stat a = total_stat b
            \<and> entryBefore (map categoryOf txs) (category_stat a) (category_stat b)))
     (getCategoryStats txs)"
proof -
  define st where "st = foldl recordTransaction [] txs"
  obtain es where out: "getCategoryStats txs = sortStats es"
    and c: "map category_stat es = map fst (objectEntries st)"
    unfolding st_def by (rule getCategoryStats_entries)
  from assms have nn: "\<forall>s\<in>set es. total_stat s \<noteq> NaN"
    by (simp add: out set_sortStats)
  from stats_keys[of txs]
  have "sorted_wrt (\<lambda>a b. firstIndex a (map categoryOf txs) < firstIndex b (map categoryOf txs))
      (map fst st)"
    unfolding st_def by blast
  then have "sorted_wrt (\<lambda>a b. entryBefore (map categoryOf txs) (fst a) (fst b)) (objectEntries st)"
    by (rule objectEntries_order)
  then have "sorted_wrt (entryBefore (map categoryOf txs)) (map fst (objectEntries st))"
    by (simp only: sorted_wrt_map)
  then have "sorted_wrt (entryBefore (map categoryOf txs)) (map category_stat es)"
    by (simp only: c)
  then have "sorted_wrt (\<lambda>a b. entryBefore (map categoryOf txs) (category_stat a) (category_stat b)) es"
    by (simp only: sorted_wrt_map)
  with nn show ?thesis
    unfolding out by (rule sortStats_ties)
qed

text \<open>
  Claim C9, as amended. Whenever no category total is NaN, which is the case when every
  amount is finite, the statistics are sorted by non-increasing total, and entries
  with equal totals are in the order of \<^verbatim>\<open>Object.entries\<close>: categories whose name is
  an array index first, by ascending index, then the other categories in the order of
  their first occurrence in the input. So when no category name is an array index,
  ties are in first-occurrence order. When no category is named like a property
  inherited from \<^verbatim>\<open>Object.prototype\<close>, the counts add up to the number of
  transactions. The categories of the statistics are those of the input that are not
  such inherited names.
\<close>

theorem stats_sorted_ties_counts:
  fixes txs :: "(string, jsnum, 'z) transaction_scheme list"
  shows "((\<forall>t\<in>set txs. isFinite (amount t)) \<longrightarrow>
            (\<forall>s\<in>set (getCategoryStats txs). total_stat s \<noteq> NaN))
   \<and> ((\<forall>s\<in>set (getCategoryStats txs). total_stat s \<noteq> NaN) \<longrightarrow>
         sorted_wrt (\<lambda>a b. geq_num (total_stat a) (total_stat b)) (getCategoryStats txs)
         \<and> sorted_wrt
              (\<lambda>a b. gt_num (total_stat a) (total_stat b)
                 \<or> (total_stat a = total_stat b
                     \<and> entryBefore (map categoryOf txs) (category_stat a) (category_stat b)))
              (getCategoryStats txs)
         \<and> ((\<forall>t\<in>set txs. \<not> isArrayIndex (categoryOf t)) \<longrightarrow>
               sorted_wrt
                 (\<lambda>a b. gt_num (total_stat a) (total_stat b)
                    \<or> (total_stat a = total_stat b
                        \<and> firstIndex (category_stat a) (map categoryOf txs)
                            < firstIndex (category_stat b) (map categoryOf txs)))
                 (getCategoryStats txs)))
   \<and> ((\<forall>t\<in>set txs. categoryOf t \<notin> set objectPrototypeKeys) \<longrightarrow>
         sum_list (map count_stat (getCategoryStats txs)) = length txs)
   \<and> set (map category_stat (getCategoryStats txs)) =
       set (map categoryOf txs) - set objectPrototypeKeys"
proof (intro conjI impI)
  assume "\<forall>t\<in>set txs. isFinite (amount t)"
  then show "\<forall>s\<in>set (getCategoryStats txs). total_stat s \<noteq> NaN"
    by (rule stats_no_NaN)
next
  assume nn: "\<forall>s\<in>set (getCategoryStats txs). total_stat s \<noteq> NaN"
  then show ties: "sorted_wrt
      (\<lambda>a b. gt_num (total_stat a) (total_stat b)
         \<or> (total_stat a = total_stat b
             \<and> entryBefore (map categoryOf txs) (category_stat a) (category_stat b)))
      (getCategoryStats txs)"
    by (rule stats_order)
  show "sorted_wrt (\<lambda>a b. geq_num (total_stat a) (total_stat b)) (getCategoryStats txs)"
  proof (rule sorted_wrt_mono_rel[OF _ ties])
    fix a b
    assume "a \<in> set (getCategoryStats txs)" "b \<in> set (getCategoryStats txs)"
      and "gt_num (total_stat a) (total_stat b)
         \<or> (total_stat a = total_stat b
             \<and> entryBefore (map categoryOf txs) (category_stat a) (category_stat b))"
    with nn show "geq_num (total_stat a) (total_stat b)"
      by (auto simp: gt_num_def geq_num_refl)
  qed
  assume idx: "\<forall>t\<in>set txs. \<not> isArrayIndex (categoryOf t)"
  show "sorted_wrt
      (\<lambda>a b. gt_num (total_stat a) (total_stat b)
         \<or> (total_stat a = total_stat b
             \<and> firstIndex (category_stat a) (map categoryOf txs)
                 < firstIndex (category_stat b) (map categoryOf txs)))
      (getCategoryStats txs)"
  proof (rule sorted_wrt_mono_rel[OF _ ties])
    fix a b
    assume a: "a \<in> set (getCategoryStats txs)" and b: "b \<in> set (getCategoryStats txs)"
      and r: "gt_num (total_stat a) (total_stat b)
         \<or> (total_stat a = total_stat b
             \<and> entryBefore (map categoryOf txs) (category_stat a) (category_stat b))"
    from a have "category_stat a \<in> set (map category_stat (getCategoryStats txs))"
      by (simp only: set_map) (rule imageI)
    then have "category_stat a \<in> set (map categoryOf txs)"
      by (simp only: stats_categories) blast
    with idx have "\<not> isArrayIndex (category_stat a)"
      by auto
    with r show "gt_num (total_stat a) (total_stat b)
         \<or> (total_stat a = total_stat b
             \<and> firstIndex (category_stat a) (map categoryOf txs)
                 < firstIndex (category_stat b) (map categoryOf txs))"
      by (auto simp: entryBefore_def)
  qed
next
  assume "\<forall>t\<in>set txs. categoryOf t \<notin> set objectPrototypeKeys"
  then show "sum_list (map count_stat (getCategoryStats txs)) = length txs"
    by (rule stats_count_sum)
next
  show "set (map category_stat (getCategoryStats txs)) =
       set (map categoryOf txs) - set objectPrototypeKeys"
    by (rule stats_categories)
qed

theorem stats_sorted_ties_counts_witness:
  "\<not> (\<exists>t\<in>set [tableTx ''Shopping'' (Num 50), tableTx ''Food & Dining'' (Num 100),
        tableTx ''Shopping'' (Num 50), tableTx [] (Num 100), tableTx ''Income'' (Num 500)].
        \<not> isFinite (amount t))
   \<and> \<not> (\<exists>t\<in>set [tableTx ''Shopping'' (Num 50), tableTx ''Food & Dining'' (Num 100),
        tableTx ''Shopping'' (Num 50), tableTx [] (Num 100), tableTx ''Income'' (Num 500)].
        categoryOf t \<in> set objectPrototypeKeys)
   \<and> \<not> (\<exists>t\<in>set [tableTx ''Shopping'' (Num 50), tableTx ''Food & Dining'' (Num 100),
        tableTx ''Shopping'' (Num 50), tableTx [] (Num 100), tableTx ''Income'' (Num 500)].
        isArrayIndex (categoryOf t))
   \<and> sorted_wrt (\<lambda>a b. geq_num (total_stat a) (total_stat b))
        (getCategoryStats [tableTx ''Shopping'' (Num 50), tableTx ''Food & Dining'' (Num 100),
           tableTx ''Shopping'' (Num 50), tableTx [] (Num 100), tableTx ''Income'' (Num 500)])
   \<and> sum_list (map count_stat
        (getCategoryStats [tableTx ''Shopping'' (Num 50), tableTx ''Food & Dining'' (Num 100),
           tableTx ''Shopping'' (Num 50), tableTx [] (Num 100), tableTx ''Income'' (Num 500)])) = 5
   \<and> map category_stat
        (getCategoryStats [tableTx ''Shopping'' (Num 50), tableTx ''Food & Dining'' (Num 100),
           tableTx ''Shopping'' (Num 50), tableTx [] (Num 100), tableTx ''Income'' (Num 500)]) =
       [''Income'', ''Shopping'', ''Food & Dining'', ''Uncategorized'']
   \<and> map total_stat
        (getCategoryStats [tableTx ''Shopping'' (Num 50), tableTx ''Food & Dining'' (Num 100),
           tableTx ''Shopping'' (Num 50), tableTx [] (Num 100), tableTx ''Income'' (Num 500)]) =
       [Num 500, Num 100, Num 100, Num 100]"
proof -
  let ?txs = "[tableTx ''Shopping'' (Num 50), tableTx ''Food & Dining'' (Num 100),
        tableTx ''Shopping'' (Num 50), tableTx [] (Num 100), tableTx ''Income'' (Num 500)]"
  note t = stats_sorted_ties_counts[of ?txs]
  have fin: "\<forall>t\<in>set ?txs. isFinite (amount t)"
    using stats_examples2(3) by blast
  have own: "\<forall>t\<in>set ?txs. categoryOf t \<notin> set objectPrototypeKeys"
    using stats_examples2(4) by blast
  from t fin have nn: "\<forall>s\<in>set (getCategoryStats ?txs). total_stat s \<noteq> NaN"
    by blast
  with t have srt: "sorted_wrt (\<lambda>a b. geq_num (total_stat a) (total_stat b)) (getCategoryStats ?txs)"
    by blast
  from t own have "sum_list (map count_stat (getCategoryStats ?txs)) = length ?txs"
    by blast
  then have cnt: "sum_list (map count_stat (getCategoryStats ?txs)) = 5"
    by simp
  from stats_examples2(3,4,5) srt cnt stats_examples2(1,2) show ?thesis
    by (intro conjI)
qed

text \<open>
  Claim C9 as stated fails on three inputs.
  \<^item> With an amount that is NaN (the edit form stores one for an empty amount field)
    the total of its category is NaN, and neither order of that total and the total 5
    is non-increasing.
  \<^item> The remote classifier assigns the lines of the answer as they are. With the answer
    "Shopping", "7" for two transactions of amount 50, both categories have the total 50,
    and the entry of "7" comes first although "Shopping" occurs first in the input.
  \<^item> With the single category "constructor" there is no entry at all, so the counts add
    up to 0 for one transaction.
\<close>

theorem stats_ties_counterexample:
  "map total_stat (getCategoryStats [tableTx ''Shopping'' NaN, tableTx ''Groceries'' (Num 5)]) = [NaN, Num 5]
   \<and> \<not> geq_num NaN (Num 5) \<and> \<not> geq_num (Num 5) NaN
   \<and> categorizeWithLLM (\<lambda>k prompt. Response True 200 (Content indexNameMessage)) (\<lambda>a. ''50.00'')
        [tableTx [] (Num 50), tableTx [] (Num 50)] =
      [tableTx ''Shopping'' (Num 50), tableTx ''7'' (Num 50)]
   \<and> map category_stat (getCategoryStats [tableTx ''Shopping'' (Num 50), tableTx ''7'' (Num 50)]) =
      [''7'', ''Shopping'']
   \<and> map total_stat (getCategoryStats [tableTx ''Shopping'' (Num 50), tableTx ''7'' (Num 50)]) =
      [Num 50, Num 50]
   \<and> getCategoryStats [tableTx ''constructor'' (Num 5)] = []
   \<and> sum_list (map count_stat (getCategoryStats [tableTx ''constructor'' (Num 5)]))
        \<noteq> length [tableTx ''constructor'' (Num 5)]"
proof -
  have n: "\<not> geq_num NaN (Num 5)" "\<not> geq_num (Num 5) NaN"
    by simp_all
  have c: "sum_list (map count_stat (getCategoryStats [tableTx ''constructor'' (Num 5)]))
        \<noteq> length [tableTx ''constructor'' (Num 5)]"
    by (simp add: stats_examples(5))
  from stats_examples(1) n stats_examples(2,3,4,5) c show ?thesis
    by (intro conjI)
qed

text \<open>
  Claim C10. Every percentage is the category's total divided by the signed sum of all
  amounts, times 100, with no guard on the divisor: when the amounts add up to zero no
  reported percentage is a finite number. This happens on inputs the mapper can
  produce: there is a non-empty list of transactions with non-empty descriptions and
  finite non-zero amounts, adding up to zero, with a non-empty list of statistics none
  of whose percentages is finite.
\<close>

theorem percentage_unguarded_division:
  fixes txs :: "(string, jsnum, 'z) transaction_scheme list"
  shows "(\<forall>s\<in>set (getCategoryStats txs).
        percentage_stat s =
          times100 (divide_num (total_stat s)
            (foldl (\<lambda>sum t. add_num sum (amount t)) (Num 0) txs)))
   \<and> (foldl (\<lambda>sum t. add_num sum (amount t)) (Num 0) txs = Num 0 \<longrightarrow>
        (\<forall>s\<in>set (getCategoryStats txs). \<not> isFinite (percentage_stat s)))
   \<and> (\<exists>ex :: (string, jsnum) transaction list.
        ex \<noteq> []
        \<and> (\<forall>t\<in>set ex. isFinite (amount t) \<and> amount t \<noteq> Num 0 \<and> description t \<noteq> [])
        \<and> foldl (\<lambda>sum t. add_num sum (amount t)) (Num 0) ex = Num 0
        \<and> getCategoryStats ex \<noteq> []
        \<and> (\<forall>s\<in>set (getCategoryStats ex). \<not> isFinite (percentage_stat s)))"
proof (intro conjI impI ballI)
  fix s assume "s \<in> set (getCategoryStats txs)"
  then show "percentage_stat s =
          times100 (divide_num (total_stat s)
            (foldl (\<lambda>sum t. add_num sum (amount t)) (Num 0) txs))"
    by (rule stat_percentage)
next
  fix s assume z: "foldl (\<lambda>sum t. add_num sum (amount t)) (Num 0) txs = Num 0"
    and "s \<in> set (getCategoryStats txs)"
  then have "percentage_stat s = times100 (divide_num (total_stat s) (Num 0))"
    by (simp only: stat_percentage)
  then show "\<not> isFinite (percentage_stat s)"
    by (simp only: divide_by_zero_not_finite not_False_eq_True)
next
  let ?ex = "[tableTx ''Income'' (Num 100), tableTx ''Shopping'' (Num (- 100))]"
  have a: "?ex \<noteq> []"
    by simp
  have b: "\<forall>t\<in>set ?ex. isFinite (amount t) \<and> amount t \<noteq> Num 0 \<and> description t \<noteq> []"
    by (simp add: tableTx_def isFinite_def)
  note c = stats_examples3(2)
  from stats_examples3(1) have d: "getCategoryStats ?ex \<noteq> []"
    by auto
  have e: "\<forall>s\<in>set (getCategoryStats ?ex). \<not> isFinite (percentage_stat s)"
  proof
    fix s assume "s \<in> set (getCategoryStats ?ex)"
    then have "percentage_stat s = times100 (divide_num (total_stat s) (Num 0))"
      by (simp only: stat_percentage c)
    then show "\<not> isFinite (percentage_stat s)"
      by (simp only: divide_by_zero_not_finite not_False_eq_True)
  qed
  from a b c d e have "?ex \<noteq> []
        \<and> (\<forall>t\<in>set ?ex. isFinite (amount t) \<and> amount t \<noteq> Num 0 \<and> description t \<noteq> [])
        \<and> foldl (\<lambda>sum t. add_num sum (amount t)) (Num 0) ?ex = Num 0
        \<and> getCategoryStats ?ex \<noteq> []
        \<and> (\<forall>s\<in>set (getCategoryStats ?ex). \<not> isFinite (percentage_stat s))"
    by - (intro conjI; assumption)
  then show "\<exists>ex :: (string, jsnum) transaction list.
        ex \<noteq> []
        \<and> (\<forall>t\<in>set ex. isFinite (amount t) \<and> amount t \<noteq> Num 0 \<and> description t \<noteq> [])
        \<and> foldl (\<lambda>sum t. add_num sum (amount t)) (Num 0) ex = Num 0
        \<and> getCategoryStats ex \<noteq> []
        \<and> (\<forall>s\<in>set (getCategoryStats ex). \<not> isFinite (percentage_stat s))"
    by (rule exI)
qed

theorem percentage_unguarded_division_witness:
  "foldl (\<lambda>sum t. add_num sum (amount t)) (Num 0)
     [tableTx ''Income'' (Num 100), tableTx ''Shopping'' (Num (- 100))] = Num 0
   \<and> map percentage_stat
        (getCategoryStats [tableTx ''Income'' (Num 100), tableTx ''Shopping'' (Num (- 100))]) =
       [PosInfinity, NegInfinity]
   \<and> \<not> (\<exists>s\<in>set (getCategoryStats [tableTx ''Income'' (Num 100), tableTx ''Shopping'' (Num (- 100))]).
          isFinite (percentage_stat s))"
proof -
  let ?ex = "[tableTx ''Income'' (Num 100), tableTx ''Shopping'' (Num (- 100))]"
  from percentage_unguarded_division[of ?ex] stats_examples3(2)
  have "\<forall>s\<in>set (getCategoryStats ?ex). \<not> isFinite (percentage_stat s)"
    by blast
  then have "\<not> (\<exists>s\<in>set (getCategoryStats ?ex). isFinite (percentage_stat s))"
    by blast
  with stats_examples3(2,1) show ?thesis
    by (intro conjI)
qed

end
